theory Spec2Isabelle
  imports Main "HOL-Library.Sublist" "HOL-Library.Char_ord" "HOL-Library.List_Lexorder"
begin

section \<open>Errors\<close>

text \<open>
  Every error value the modelled Go functions return. A Go \<open>error\<close> result is an
  \<open>error option\<close> here: \<open>None\<close> is \<open>nil\<close>.
\<close>

datatype errno = ENOENT | ENOTDIR | EISDIR | ENOTEMPTY

datatype error =
    ScheduleAlreadyExists nat
  | FailedToAddCronJob string
  | CronFieldEmpty string
  | InvalidStepValue string string
  | InvalidRange string string
  | InvalidValue string string
  | ValueOutOfBounds string int
  | RangeOutOfBounds string
  | DBError
  | RecordNotFound
  | FailedToCountBackups error
  | FailedToGetOldestBackup error
  | FailedToDeleteBackupRecord error
  | FailedToCreateBackupDirectory errno
  | FailedToCreateBackupFile errno
  | FailedToCreateArchive errno
  | FailedToGetBackupFileSize errno
  | BackupPathCannotBeCreated errno
  | BackupPathNotWritable errno
  | BackupFileNotFound
  | ServerFolderNotFound
  | FailedToReadDirectory errno
  | FailedToRemove string errno
  | FailedToClearServerDirectory error
  | FailedToExtractBackup error
  | FailedToOpenBackupFile errno
  | FailedToCreateGzipReader
  | FailedToReadTarHeader
  | InvalidFilePathInArchive string
  | FailedToCreateDirectory string errno
  | FailedToCreateParentDirectory string errno
  | FailedToCreateFile string errno
  | FailedToWriteFile string
  | FailedToSetPermissions string errno
  | OSError errno
  | ArchiveFormatError
  | TarReadError
  | CopyError

section \<open>Scheduler core (services/schedule\_service.go)\<close>

text \<open>
  \<open>models.Schedule\<close>. Identifiers are Go \<open>uint\<close>; no arithmetic is done on them, so
  they are natural numbers here. The two timestamps play no part in the scheduler.
\<close>

record Schedule =
  ID :: nat
  ServerID :: nat
  Name :: string
  CronMinute :: string
  CronHour :: string
  CronDayOfMonth :: string
  CronMonth :: string
  CronDayOfWeek :: string
  Enabled :: bool
  Action :: string
  Command :: string

text \<open>\<open>GetCronExpression\<close>: the five fields, space-joined in fixed order.\<close>

definition GetCronExpression :: "Schedule \<Rightarrow> string" where
  "GetCronExpression s =
     CronMinute s @ '' '' @ CronHour s @ '' '' @ CronDayOfMonth s @ '' '' @
     CronMonth s @ '' '' @ CronDayOfWeek s"

text \<open>
  The cron engine (\<open>robfig/cron\<close>) is an external library. Its state is the
  list of live entries, each with its entry id and the schedule the callback closure
  captured, and the id counter. Its expression parser is not part of this repository
  and is a parameter \<open>parses\<close> of every function that reaches \<open>AddFunc\<close>.
\<close>

record Cron =
  entries :: "(nat \<times> Schedule) list"
  nextID :: nat

definition AddFunc :: "(string \<Rightarrow> bool) \<Rightarrow> string \<Rightarrow> Schedule \<Rightarrow> Cron \<Rightarrow> (nat \<times> Cron) option" where
  "AddFunc parses spec job c =
     (if parses spec
      then Some (Suc (nextID c),
                 c\<lparr>entries := entries c @ [(Suc (nextID c), job)], nextID := Suc (nextID c)\<rparr>)
      else None)"

definition CronRemove :: "nat \<Rightarrow> Cron \<Rightarrow> Cron" where
  "CronRemove e c = c\<lparr>entries := filter (\<lambda>x. fst x \<noteq> e) (entries c)\<rparr>"

text \<open>
  \<open>ScheduleService\<close>: the engine and the map from schedule id to entry id. The mutex
  serialises the structural operations; each operation below is one critical section.
\<close>

record ScheduleService =
  cron :: Cron
  schedules :: "nat \<rightharpoonup> nat"

definition addScheduleInternal ::
  "(string \<Rightarrow> bool) \<Rightarrow> Schedule \<Rightarrow> ScheduleService \<Rightarrow> error option \<times> ScheduleService" where
  "addScheduleInternal parses schedule s =
     (case schedules s (ID schedule) of
        Some _ \<Rightarrow> (Some (ScheduleAlreadyExists (ID schedule)), s)
      | None \<Rightarrow>
          (let cronExpr = GetCronExpression schedule in
           case AddFunc parses cronExpr schedule (cron s) of
             None \<Rightarrow> (Some (FailedToAddCronJob cronExpr), s)
           | Some (entryID, c') \<Rightarrow>
               (None, s\<lparr>cron := c', schedules := (schedules s)(ID schedule \<mapsto> entryID)\<rparr>)))"

definition AddSchedule ::
  "(string \<Rightarrow> bool) \<Rightarrow> Schedule \<Rightarrow> ScheduleService \<Rightarrow> error option \<times> ScheduleService" where
  "AddSchedule parses schedule s =
     (if \<not> Enabled schedule then (None, s) else addScheduleInternal parses schedule s)"

definition RemoveSchedule :: "nat \<Rightarrow> ScheduleService \<Rightarrow> error option \<times> ScheduleService" where
  "RemoveSchedule scheduleID s =
     (case schedules s scheduleID of
        None \<Rightarrow> (None, s)
      | Some entryID \<Rightarrow>
          (None, s\<lparr>cron := CronRemove entryID (cron s),
                    schedules := (schedules s)(scheduleID := None)\<rparr>))"

definition UpdateSchedule ::
  "(string \<Rightarrow> bool) \<Rightarrow> Schedule \<Rightarrow> ScheduleService \<Rightarrow> error option \<times> ScheduleService" where
  "UpdateSchedule parses schedule s =
     (case RemoveSchedule (ID schedule) s of
        (Some e, s') \<Rightarrow> (Some e, s')
      | (None, s') \<Rightarrow>
          (if Enabled schedule then AddSchedule parses schedule s' else (None, s')))"

text \<open>\<open>LoadAllSchedules\<close>: each registration error is logged, the load goes on.\<close>

fun loadLoop :: "(string \<Rightarrow> bool) \<Rightarrow> Schedule list \<Rightarrow> ScheduleService \<Rightarrow> ScheduleService" where
  "loadLoop parses [] s = s"
| "loadLoop parses (schedule # rest) s = loadLoop parses rest (snd (addScheduleInternal parses schedule s))"

text \<open>Example data used by the closed instances below.\<close>

definition exampleSchedule :: Schedule where
  "exampleSchedule =
     \<lparr>ID = 7, ServerID = 1, Name = ''nightly'', CronMinute = ''0'', CronHour = ''*/2'',
      CronDayOfMonth = ''*'', CronMonth = ''*'', CronDayOfWeek = ''*'', Enabled = True,
      Action = ''backup'', Command = ''''\<rparr>"

definition emptyService :: ScheduleService where
  "emptyService = \<lparr>cron = \<lparr>entries = [], nextID = 0\<rparr>, schedules = Map.empty\<rparr>"

section \<open>Go string functions used by the code\<close>

text \<open>
  Go strings are byte sequences; so are HOL strings. The functions of package
  \<open>strings\<close> and \<open>strconv\<close> that the repository calls, as their documentation defines
  them. \<open>strings.Contains(s, ",")\<close> with a one-byte needle is \<open>c \<in> set s\<close>.
\<close>

definition HasPrefix :: "string \<Rightarrow> string \<Rightarrow> bool" where
  "HasPrefix s p = (take (length p) s = p)"

definition TrimPrefix :: "string \<Rightarrow> string \<Rightarrow> string" where
  "TrimPrefix s p = (if HasPrefix s p then drop (length p) s else s)"

text \<open>\<open>strings.Split(s, sep)\<close> for a one-byte separator: \<open>n\<close> separators give \<open>n + 1\<close> parts.\<close>

fun Split :: "string \<Rightarrow> char \<Rightarrow> string list" where
  "Split [] sep = [[]]"
| "Split (c # cs) sep =
     (if c = sep then [] # Split cs sep
      else (case Split cs sep of [] \<Rightarrow> [[c]] | p # ps \<Rightarrow> (c # p) # ps))"

text \<open>
  \<open>strings.TrimSpace\<close> removes leading and trailing white space as Unicode defines it.
  \<open>spaceRunes\<close> lists the UTF-8 encodings of the code points \<open>unicode.IsSpace\<close> accepts:
  tab, LF, VT, FF, CR, space, U+0085, U+00A0, U+1680, U+2000 to U+200A, U+2028, U+2029,
  U+202F, U+205F, U+3000.
\<close>

definition spaceRunes :: "string list" where
  "spaceRunes =
     [[CHR 0x09], [CHR 0x0A], [CHR 0x0B], [CHR 0x0C], [CHR 0x0D], [CHR 0x20],
      [CHR 0xC2, CHR 0x85], [CHR 0xC2, CHR 0xA0],
      [CHR 0xE1, CHR 0x9A, CHR 0x80]] @
     map (\<lambda>b. [CHR 0xE2, CHR 0x80, b])
       [CHR 0x80, CHR 0x81, CHR 0x82, CHR 0x83, CHR 0x84, CHR 0x85, CHR 0x86, CHR 0x87,
        CHR 0x88, CHR 0x89, CHR 0x8A, CHR 0xA8, CHR 0xA9, CHR 0xAF] @
     [[CHR 0xE2, CHR 0x81, CHR 0x9F], [CHR 0xE3, CHR 0x80, CHR 0x80]]"

function trimLeftBy :: "string list \<Rightarrow> string \<Rightarrow> string" where
  "trimLeftBy runes s =
     (case find (\<lambda>p. p \<noteq> [] \<and> HasPrefix s p) runes of
        None \<Rightarrow> s
      | Some p \<Rightarrow> trimLeftBy runes (drop (length p) s))"
  by pat_completeness auto
termination
proof (relation "measure (\<lambda>(runes, s). length s)")
  show "wf (measure (\<lambda>(runes, s). length s))" by simp
next
  fix runes :: "string list" and s p :: string
  assume "find (\<lambda>p. p \<noteq> [] \<and> HasPrefix s p) runes = Some p"
  then have "p \<noteq> []" and "HasPrefix s p"
    by (auto simp: find_Some_iff)
  then have "s \<noteq> []" by (auto simp: HasPrefix_def)
  with \<open>p \<noteq> []\<close> show "((runes, drop (length p) s), (runes, s)) \<in> measure (\<lambda>(runes, s). length s)"
    by simp
qed

definition TrimSpace :: "string \<Rightarrow> string" where
  "TrimSpace s = rev (trimLeftBy (map rev spaceRunes) (rev (trimLeftBy spaceRunes s)))"

text \<open>
  \<open>strconv.Atoi\<close>: an optional sign, then one or more decimal digits and nothing else;
  a value outside the 64-bit \<open>int\<close> is a range error. Both errors are \<open>None\<close>.
\<close>

definition isDigit :: "char \<Rightarrow> bool" where
  "isDigit c = (CHR ''0'' \<le> c \<and> c \<le> CHR ''9'')"

definition digitVal :: "char \<Rightarrow> nat" where
  "digitVal c = of_char c - of_char CHR ''0''"

definition decimal :: "string \<Rightarrow> nat" where
  "decimal ds = foldl (\<lambda>n ch. n * 10 + digitVal ch) 0 ds"

definition Atoi :: "string \<Rightarrow> int option" where
  "Atoi s =
     (let neg = (s \<noteq> [] \<and> hd s = CHR ''-'');
          ds = (if s \<noteq> [] \<and> (hd s = CHR ''-'' \<or> hd s = CHR ''+'') then tl s else s)
      in if ds = [] \<or> \<not> list_all isDigit ds then None
         else let n = (if neg then - int (decimal ds) else int (decimal ds))
              in if n < - 9223372036854775808 \<or> 9223372036854775807 < n then None else Some n)"

section \<open>Cron validator (models: ValidateCronField)\<close>

text \<open>
  \<open>validateSingleCronValue\<close>: the \<open>switch\<close> on the field name has no default case, so a
  field name other than the five is not bounds-checked.
\<close>

definition validateSingleCronValue :: "string \<Rightarrow> string \<Rightarrow> error option" where
  "validateSingleCronValue fieldName v =
     (case Atoi v of
        None \<Rightarrow> Some (InvalidValue fieldName v)
      | Some num \<Rightarrow>
          (if fieldName = ''minute'' then
             (if num < 0 \<or> num > 59 then Some (ValueOutOfBounds fieldName num) else None)
           else if fieldName = ''hour'' then
             (if num < 0 \<or> num > 23 then Some (ValueOutOfBounds fieldName num) else None)
           else if fieldName = ''day_of_month'' then
             (if num < 1 \<or> num > 31 then Some (ValueOutOfBounds fieldName num) else None)
           else if fieldName = ''month'' then
             (if num < 1 \<or> num > 12 then Some (ValueOutOfBounds fieldName num) else None)
           else if fieldName = ''day_of_week'' then
             (if num < 0 \<or> num > 6 then Some (ValueOutOfBounds fieldName num) else None)
           else None))"

definition validateCronRange :: "string \<Rightarrow> int \<Rightarrow> int \<Rightarrow> error option" where
  "validateCronRange fieldName start end =
     (if fieldName = ''minute'' then
        (if start < 0 \<or> end > 59 then Some (RangeOutOfBounds fieldName) else None)
      else if fieldName = ''hour'' then
        (if start < 0 \<or> end > 23 then Some (RangeOutOfBounds fieldName) else None)
      else if fieldName = ''day_of_month'' then
        (if start < 1 \<or> end > 31 then Some (RangeOutOfBounds fieldName) else None)
      else if fieldName = ''month'' then
        (if start < 1 \<or> end > 12 then Some (RangeOutOfBounds fieldName) else None)
      else if fieldName = ''day_of_week'' then
        (if start < 0 \<or> end > 6 then Some (RangeOutOfBounds fieldName) else None)
      else None)"

text \<open>The loop over the comma-separated parts: the first error is returned.\<close>

fun validateParts :: "string \<Rightarrow> string list \<Rightarrow> error option" where
  "validateParts fieldName [] = None"
| "validateParts fieldName (part # parts) =
     (case validateSingleCronValue fieldName (TrimSpace part) of
        Some err \<Rightarrow> Some err
      | None \<Rightarrow> validateParts fieldName parts)"

definition ValidateCronField :: "string \<Rightarrow> string \<Rightarrow> error option" where
  "ValidateCronField fieldName v =
     (if v = [] then Some (CronFieldEmpty fieldName)
      else if v = ''*'' then None
      else if HasPrefix v ''*/'' then
        (case Atoi (TrimPrefix v ''*/'') of
           None \<Rightarrow> Some (InvalidStepValue fieldName v)
         | Some step \<Rightarrow> if step < 1 then Some (InvalidStepValue fieldName v) else None)
      else if CHR '','' \<in> set v then validateParts fieldName (Split v CHR '','')
      else if CHR ''-'' \<in> set v then
        (case Split v CHR ''-'' of
           [p0, p1] \<Rightarrow>
             (case (Atoi (TrimSpace p0), Atoi (TrimSpace p1)) of
                (Some start, Some end) \<Rightarrow>
                  if start \<ge> end then Some (InvalidRange fieldName v)
                  else validateCronRange fieldName start end
              | _ \<Rightarrow> Some (InvalidRange fieldName v))
         | _ \<Rightarrow> Some (InvalidRange fieldName v))
      else validateSingleCronValue fieldName v)"

text \<open>
  The bounds the specification gives for the five fields (section 4.1), written from
  the specification's words to be compared with what the validator enforces.
\<close>

definition spec_field_range :: "string \<Rightarrow> (int \<times> int) option" where
  "spec_field_range fieldName =
     (if fieldName = ''minute'' then Some (0, 59)
      else if fieldName = ''hour'' then Some (0, 23)
      else if fieldName = ''day_of_month'' then Some (1, 31)
      else if fieldName = ''month'' then Some (1, 12)
      else if fieldName = ''day_of_week'' then Some (0, 6)
      else None)"

section \<open>Paths (Go package path/filepath, Unix)\<close>

text \<open>
  \<open>filepath.Clean\<close> by its documented rules: multiple separators become one, every
  \<open>.\<close> element goes, every inner \<open>..\<close> goes with the element before it, a \<open>..\<close> that
  begins a rooted path goes; the empty result is \<open>.\<close>.
\<close>

fun joinPath :: "string list \<Rightarrow> string" where
  "joinPath [] = []"
| "joinPath [c] = c"
| "joinPath (c # cs) = c @ ''/'' @ joinPath cs"

definition cleanStep :: "bool \<Rightarrow> string list \<Rightarrow> string \<Rightarrow> string list" where
  "cleanStep rooted acc c =
     (if c = [] \<or> c = ''.'' then acc
      else if c = ''..'' then
        (if acc \<noteq> [] \<and> last acc \<noteq> ''..'' then butlast acc
         else if rooted then acc
         else acc @ [c])
      else acc @ [c])"

definition cleanComps :: "bool \<Rightarrow> string list \<Rightarrow> string list" where
  "cleanComps rooted cs = foldl (cleanStep rooted) [] cs"

definition Clean :: "string \<Rightarrow> string" where
  "Clean p =
     (if p = [] then ''.''
      else if hd p = CHR ''/'' then CHR ''/'' # joinPath (cleanComps True (Split p CHR ''/''))
      else (let cs = cleanComps False (Split p CHR ''/'') in if cs = [] then ''.'' else joinPath cs))"

text \<open>\<open>filepath.Join\<close> of two elements: empty elements are ignored, the rest is cleaned.\<close>

definition Join :: "string \<Rightarrow> string \<Rightarrow> string" where
  "Join a b =
     (if a \<noteq> [] then Clean (a @ ''/'' @ b)
      else if b \<noteq> [] then Clean b
      else [])"

text \<open>\<open>filepath.Dir\<close>: all but the last element, cleaned.\<close>

definition Dir :: "string \<Rightarrow> string" where
  "Dir p = Clean (rev (dropWhile (\<lambda>c. c \<noteq> CHR ''/'') (rev p)))"

section \<open>File system\<close>

text \<open>
  The file system the \<open>os\<close> calls act on: the existing paths, each a list of names from
  the root, with what is there. A file has its bytes and mode bits, a directory its
  mode bits (0755 is 493, 0644 is 420). The root directory always exists. Names are
  resolved lexically from the root (a relative name as if the working directory were
  the root); there are no symbolic links and no permission checks, so a call fails only
  for the structural reasons \<open>errno\<close> lists.
\<close>

type_synonym path = "string list"

datatype node = File string int | Directory int

type_synonym filesystem = "(path \<times> node) list"

definition lookup :: "filesystem \<Rightarrow> path \<Rightarrow> node option" where
  "lookup fs p = (if p = [] then Some (Directory 493) else map_of fs p)"

fun put :: "path \<Rightarrow> node \<Rightarrow> filesystem \<Rightarrow> filesystem" where
  "put p n [] = [(p, n)]"
| "put p n (e # rest) = (if fst e = p then (p, n) # rest else e # put p n rest)"

definition resolve :: "string \<Rightarrow> path" where
  "resolve name = cleanComps True (Split name CHR ''/'')"

fun statFrom :: "filesystem \<Rightarrow> path \<Rightarrow> string list \<Rightarrow> errno + node" where
  "statFrom fs cur [] = (case lookup fs cur of None \<Rightarrow> Inl ENOENT | Some n \<Rightarrow> Inr n)"
| "statFrom fs cur (c # cs) =
     (case lookup fs cur of
        None \<Rightarrow> Inl ENOENT
      | Some (File _ _) \<Rightarrow> Inl ENOTDIR
      | Some (Directory _) \<Rightarrow> statFrom fs (cur @ [c]) cs)"

text \<open>
  \<open>os.Stat\<close>. The error of a missing name is \<open>ENOENT\<close>, the only one for which
  \<open>os.IsNotExist\<close> holds; a name below a regular file gives \<open>ENOTDIR\<close>.
\<close>

definition os_Stat :: "filesystem \<Rightarrow> string \<Rightarrow> errno + node" where
  "os_Stat fs name = (if name = [] then Inl ENOENT else statFrom fs [] (resolve name))"

definition IsNotExist :: "errno + 'a \<Rightarrow> bool" where
  "IsNotExist r = (r = Inl ENOENT)"

text \<open>\<open>os.Open\<close> followed by reading the whole file.\<close>

definition os_ReadFile :: "filesystem \<Rightarrow> string \<Rightarrow> errno + string" where
  "os_ReadFile fs name =
     (case os_Stat fs name of
        Inl e \<Rightarrow> Inl e
      | Inr (Directory _) \<Rightarrow> Inl EISDIR
      | Inr (File bytes _) \<Rightarrow> Inr bytes)"

text \<open>\<open>os.MkdirAll\<close>: existing directories are kept, missing ones are made.\<close>

fun mkdirFrom :: "int \<Rightarrow> path \<Rightarrow> string list \<Rightarrow> filesystem \<Rightarrow> errno + filesystem" where
  "mkdirFrom perm cur [] fs = Inr fs"
| "mkdirFrom perm cur (c # cs) fs =
     (case lookup fs (cur @ [c]) of
        Some (Directory _) \<Rightarrow> mkdirFrom perm (cur @ [c]) cs fs
      | Some (File _ _) \<Rightarrow> Inl ENOTDIR
      | None \<Rightarrow> mkdirFrom perm (cur @ [c]) cs (put (cur @ [c]) (Directory perm) fs))"

definition os_MkdirAll :: "string \<Rightarrow> int \<Rightarrow> filesystem \<Rightarrow> errno + filesystem" where
  "os_MkdirAll name perm fs = (if name = [] then Inl ENOENT else mkdirFrom perm [] (resolve name) fs)"

text \<open>
  \<open>os.Create\<close>: the parent must be a directory; an existing file is truncated and keeps
  its mode, a new one gets mode 0644 (0666 under the usual umask 022).
\<close>

definition os_Create :: "string \<Rightarrow> filesystem \<Rightarrow> errno + filesystem" where
  "os_Create name fs =
     (if name = [] then Inl ENOENT
      else let p = resolve name in
        if p = [] then Inl EISDIR
        else (case statFrom fs [] (butlast p) of
                Inl e \<Rightarrow> Inl e
              | Inr (File _ _) \<Rightarrow> Inl ENOTDIR
              | Inr (Directory _) \<Rightarrow>
                  (case lookup fs p of
                     Some (Directory _) \<Rightarrow> Inl EISDIR
                   | Some (File _ m) \<Rightarrow> Inr (put p (File [] m) fs)
                   | None \<Rightarrow> Inr (put p (File [] 420) fs))))"

text \<open>Writing bytes through the handle \<open>os.Create\<close> returned (\<open>io.Copy\<close>).\<close>

definition writeFile :: "string \<Rightarrow> string \<Rightarrow> filesystem \<Rightarrow> filesystem" where
  "writeFile name bytes fs =
     (case lookup fs (resolve name) of
        Some (File _ m) \<Rightarrow> put (resolve name) (File bytes m) fs
      | _ \<Rightarrow> fs)"

text \<open>
  \<open>os.Chmod\<close> with an \<open>os.FileMode\<close>. The header's mode is an \<open>int64\<close> and is
  converted to the 32-bit \<open>FileMode\<close>; the call passes on the nine permission bits, and
  the set-uid, set-gid and sticky bits where \<open>FileMode\<close> keeps them (bits 23, 22, 20).
\<close>

definition syscallMode :: "int \<Rightarrow> int" where
  "syscallMode m =
     (let fm = m mod 4294967296 in
      fm mod 512 + (if odd (fm div 8388608) then 2048 else 0) + (if odd (fm div 4194304) then 1024 else 0)
        + (if odd (fm div 1048576) then 512 else 0))"

definition os_Chmod :: "string \<Rightarrow> int \<Rightarrow> filesystem \<Rightarrow> errno + filesystem" where
  "os_Chmod name m fs =
     (case os_Stat fs name of
        Inl e \<Rightarrow> Inl e
      | Inr (File bytes _) \<Rightarrow> Inr (put (resolve name) (File bytes (syscallMode m)) fs)
      | Inr (Directory _) \<Rightarrow>
          Inr (if resolve name = [] then fs else put (resolve name) (Directory (syscallMode m)) fs))"

definition children :: "filesystem \<Rightarrow> path \<Rightarrow> string list" where
  "children fs p = sort (remdups (map (\<lambda>e. last (fst e)) (filter (\<lambda>e. fst e \<noteq> [] \<and> butlast (fst e) = p) fs)))"

text \<open>\<open>os.Remove\<close>: a file, or a directory that is empty.\<close>

definition os_Remove :: "string \<Rightarrow> filesystem \<Rightarrow> errno + filesystem" where
  "os_Remove name fs =
     (case os_Stat fs name of
        Inl e \<Rightarrow> Inl e
      | Inr (File _ _) \<Rightarrow> Inr (filter (\<lambda>e. fst e \<noteq> resolve name) fs)
      | Inr (Directory _) \<Rightarrow>
          (if resolve name = [] \<or> children fs (resolve name) \<noteq> [] then Inl ENOTEMPTY
           else Inr (filter (\<lambda>e. fst e \<noteq> resolve name) fs)))"

text \<open>\<open>os.RemoveAll\<close>: the name and everything below it; a missing name is no error.\<close>

definition os_RemoveAll :: "string \<Rightarrow> filesystem \<Rightarrow> errno + filesystem" where
  "os_RemoveAll name fs =
     (if name = [] then Inr fs
      else (case os_Stat fs name of
              Inl ENOTDIR \<Rightarrow> Inl ENOTDIR
            | _ \<Rightarrow> Inr (filter (\<lambda>e. \<not> prefix (resolve name) (fst e)) fs)))"

text \<open>\<open>os.ReadDir\<close>: the names in a directory, sorted.\<close>

definition os_ReadDir :: "string \<Rightarrow> filesystem \<Rightarrow> errno + string list" where
  "os_ReadDir name fs =
     (case os_Stat fs name of
        Inl e \<Rightarrow> Inl e
      | Inr (File _ _) \<Rightarrow> Inl ENOTDIR
      | Inr (Directory _) \<Rightarrow> Inr (children fs (resolve name)))"

section \<open>Archives\<close>

text \<open>
  What the readers of \<open>archive/tar\<close> and \<open>archive/zip\<close> hand to the code: the entries in
  order, each with the header fields the code reads and its bytes. \<open>DataIntact\<close> is false
  when reading the entry's bytes fails part-way (\<open>io.Copy\<close> returns an error after
  writing \<open>Data\<close>); a tar stream ends at end of archive or with a read error.
\<close>

datatype typeflag = TypeReg | TypeDir | TypeOther

record TarEntry =
  HeaderName :: string
  HeaderTypeflag :: typeflag
  HeaderMode :: int
  Data :: string
  DataIntact :: bool

datatype stream_end = EndOfArchive | BrokenStream

record ZipEntry =
  ZipName :: string
  ZipIsDir :: bool
  ZipMode :: int
  ZipOpens :: bool
  ZipData :: string
  ZipDataIntact :: bool

text \<open>
  The compression and container formats are the Go standard library's, not this
  repository's: they are a parameter. \<open>readTarGz\<close> is \<open>None\<close> when \<open>gzip.NewReader\<close>
  rejects the file, \<open>readZip\<close> is \<open>None\<close> when \<open>zip.OpenReader\<close> does. \<open>writeTarGz\<close> gives the
  bytes of the finished archive; \<open>writtenBeforeClose\<close> is how many of them have reached
  the file before the writers are closed.
\<close>

record Codec =
  readTarGz :: "string \<Rightarrow> (TarEntry list \<times> stream_end) option"
  readTar :: "string \<Rightarrow> TarEntry list \<times> stream_end"
  readZip :: "string \<Rightarrow> ZipEntry list option"
  writeTarGz :: "TarEntry list \<Rightarrow> string"
  writtenBeforeClose :: "TarEntry list \<Rightarrow> nat"

section \<open>File manager extraction (handlers: extractTarGz, extractTar, extractZip)\<close>

text \<open>
  The loop body of \<open>extractTarGz\<close> and of \<open>extractTar\<close> is the same text; \<open>extractTarLoop\<close>
  is that loop. An entry that fails the path check is skipped with \<open>continue\<close>.
\<close>

fun extractTarLoop :: "string \<Rightarrow> TarEntry list \<Rightarrow> stream_end \<Rightarrow> filesystem \<Rightarrow> error option \<times> filesystem" where
  "extractTarLoop destPath [] fin fs =
     (if fin = EndOfArchive then (None, fs) else (Some TarReadError, fs))"
| "extractTarLoop destPath (header # rest) fin fs =
     (let target = Join destPath (HeaderName header) in
      if \<not> HasPrefix target (Clean destPath @ ''/'') then extractTarLoop destPath rest fin fs
      else (case HeaderTypeflag header of
              TypeDir \<Rightarrow>
                (case os_MkdirAll target 493 fs of
                   Inl e \<Rightarrow> (Some (OSError e), fs)
                 | Inr fs1 \<Rightarrow> extractTarLoop destPath rest fin fs1)
            | TypeReg \<Rightarrow>
                (case os_MkdirAll (Dir target) 493 fs of
                   Inl e \<Rightarrow> (Some (OSError e), fs)
                 | Inr fs1 \<Rightarrow>
                     (case os_Create target fs1 of
                        Inl e \<Rightarrow> (Some (OSError e), fs1)
                      | Inr fs2 \<Rightarrow>
                          (let fs3 = writeFile target (Data header) fs2 in
                           if \<not> DataIntact header then (Some CopyError, fs3)
                           else (case os_Chmod target (HeaderMode header) fs3 of
                                   Inl e \<Rightarrow> (Some (OSError e), fs3)
                                 | Inr fs4 \<Rightarrow> extractTarLoop destPath rest fin fs4))))
            | TypeOther \<Rightarrow> extractTarLoop destPath rest fin fs))"

definition extractTarGz :: "Codec \<Rightarrow> string \<Rightarrow> string \<Rightarrow> filesystem \<Rightarrow> error option \<times> filesystem" where
  "extractTarGz codec archivePath destPath fs =
     (case os_ReadFile fs archivePath of
        Inl e \<Rightarrow> (Some (OSError e), fs)
      | Inr bytes \<Rightarrow>
          (case readTarGz codec bytes of
             None \<Rightarrow> (Some ArchiveFormatError, fs)
           | Some (hs, fin) \<Rightarrow> extractTarLoop destPath hs fin fs))"

definition extractTar :: "Codec \<Rightarrow> string \<Rightarrow> string \<Rightarrow> filesystem \<Rightarrow> error option \<times> filesystem" where
  "extractTar codec archivePath destPath fs =
     (case os_ReadFile fs archivePath of
        Inl e \<Rightarrow> (Some (OSError e), fs)
      | Inr bytes \<Rightarrow> (case readTar codec bytes of (hs, fin) \<Rightarrow> extractTarLoop destPath hs fin fs))"

fun extractZipLoop :: "string \<Rightarrow> ZipEntry list \<Rightarrow> filesystem \<Rightarrow> error option \<times> filesystem" where
  "extractZipLoop destPath [] fs = (None, fs)"
| "extractZipLoop destPath (file # rest) fs =
     (let target = Join destPath (ZipName file) in
      if \<not> HasPrefix target (Clean destPath @ ''/'') then extractZipLoop destPath rest fs
      else if ZipIsDir file then
        (case os_MkdirAll target 493 fs of
           Inl e \<Rightarrow> (Some (OSError e), fs)
         | Inr fs1 \<Rightarrow> extractZipLoop destPath rest fs1)
      else
        (case os_MkdirAll (Dir target) 493 fs of
           Inl e \<Rightarrow> (Some (OSError e), fs)
         | Inr fs1 \<Rightarrow>
             if \<not> ZipOpens file then (Some ArchiveFormatError, fs1)
             else (case os_Create target fs1 of
                     Inl e \<Rightarrow> (Some (OSError e), fs1)
                   | Inr fs2 \<Rightarrow>
                       (let fs3 = writeFile target (ZipData file) fs2 in
                        if \<not> ZipDataIntact file then (Some CopyError, fs3)
                        else (case os_Chmod target (ZipMode file) fs3 of
                                Inl e \<Rightarrow> (Some (OSError e), fs3)
                              | Inr fs4 \<Rightarrow> extractZipLoop destPath rest fs4)))))"

definition extractZip :: "Codec \<Rightarrow> string \<Rightarrow> string \<Rightarrow> filesystem \<Rightarrow> error option \<times> filesystem" where
  "extractZip codec archivePath destPath fs =
     (case os_ReadFile fs archivePath of
        Inl e \<Rightarrow> (Some (OSError e), fs)
      | Inr bytes \<Rightarrow>
          (case readZip codec bytes of
             None \<Rightarrow> (Some ArchiveFormatError, fs)
           | Some zfiles \<Rightarrow> extractZipLoop destPath zfiles fs))"

section \<open>Backup service (services: backup archive, restore)\<close>

text \<open>
  \<open>filepath.Walk\<close> visits a tree depth first with the names of each directory sorted,
  which is the lexicographic order of the paths as lists of names. Each visited path
  below the source becomes one entry, named by its path relative to the source.
\<close>

definition walkEntries :: "filesystem \<Rightarrow> path \<Rightarrow> TarEntry list" where
  "walkEntries fs src =
     map (\<lambda>q. case lookup fs q of
                 Some (File bytes m) \<Rightarrow>
                   \<lparr>HeaderName = joinPath (drop (length src) q), HeaderTypeflag = TypeReg,
                    HeaderMode = m, Data = bytes, DataIntact = True\<rparr>
               | _ \<Rightarrow>
                   \<lparr>HeaderName = joinPath (drop (length src) q), HeaderTypeflag = TypeDir,
                    HeaderMode = (case lookup fs q of Some (Directory m) \<Rightarrow> m | _ \<Rightarrow> 0),
                    Data = [], DataIntact = True\<rparr>)
         (sort (remdups (filter (strict_prefix src) (map fst fs))))"

text \<open>
  \<open>CreateTarGzBackup\<close>. The archive file is created before the walk, so a walk that
  reaches it sees it empty. The size is read by \<open>os.Stat\<close> before the deferred \<open>Close\<close>
  calls run, so it is the number of bytes written by then; the file system returned is
  the one after they have run. A failed walk still leaves the file, closed as an empty
  archive.
\<close>

definition CreateTarGzBackup ::
  "Codec \<Rightarrow> string \<Rightarrow> string \<Rightarrow> string \<Rightarrow> filesystem \<Rightarrow> (error + string \<times> int) \<times> filesystem" where
  "CreateTarGzBackup codec sourcePath backupPath fileName fs =
     (case os_MkdirAll backupPath 493 fs of
        Inl e \<Rightarrow> (Inl (FailedToCreateBackupDirectory e), fs)
      | Inr fs1 \<Rightarrow>
          (let fullBackupPath = Join backupPath fileName in
           case os_Create fullBackupPath fs1 of
             Inl e \<Rightarrow> (Inl (FailedToCreateBackupFile e), fs1)
           | Inr fs2 \<Rightarrow>
               (case os_Stat fs2 sourcePath of
                  Inl e \<Rightarrow> (Inl (FailedToCreateArchive e), writeFile fullBackupPath (writeTarGz codec []) fs2)
                | Inr root \<Rightarrow>
                    (let hs = (case root of Directory _ \<Rightarrow> walkEntries fs2 (resolve sourcePath) | File _ _ \<Rightarrow> []);
                         fs3 = writeFile fullBackupPath (writeTarGz codec hs) fs2
                     in case os_Stat fs2 fullBackupPath of
                          Inl e \<Rightarrow> (Inl (FailedToGetBackupFileSize e), fs3)
                        | Inr info \<Rightarrow> (Inr (fullBackupPath, int (writtenBeforeClose codec hs)), fs3)))))"

text \<open>\<open>extractTarGzBackup\<close>: the restore path's own extractor. A rejected entry aborts.\<close>

fun extractBackupLoop :: "string \<Rightarrow> TarEntry list \<Rightarrow> stream_end \<Rightarrow> filesystem \<Rightarrow> error option \<times> filesystem" where
  "extractBackupLoop destPath [] fin fs =
     (if fin = EndOfArchive then (None, fs) else (Some FailedToReadTarHeader, fs))"
| "extractBackupLoop destPath (header # rest) fin fs =
     (let target = Join destPath (HeaderName header) in
      if \<not> HasPrefix (Clean target) (Clean destPath) then (Some (InvalidFilePathInArchive (HeaderName header)), fs)
      else (case HeaderTypeflag header of
              TypeDir \<Rightarrow>
                (case os_MkdirAll target 493 fs of
                   Inl e \<Rightarrow> (Some (FailedToCreateDirectory target e), fs)
                 | Inr fs1 \<Rightarrow> extractBackupLoop destPath rest fin fs1)
            | TypeReg \<Rightarrow>
                (case os_MkdirAll (Dir target) 493 fs of
                   Inl e \<Rightarrow> (Some (FailedToCreateParentDirectory target e), fs)
                 | Inr fs1 \<Rightarrow>
                     (case os_Create target fs1 of
                        Inl e \<Rightarrow> (Some (FailedToCreateFile target e), fs1)
                      | Inr fs2 \<Rightarrow>
                          (let fs3 = writeFile target (Data header) fs2 in
                           if \<not> DataIntact header then (Some (FailedToWriteFile target), fs3)
                           else (case os_Chmod target (HeaderMode header) fs3 of
                                   Inl e \<Rightarrow> (Some (FailedToSetPermissions target e), fs3)
                                 | Inr fs4 \<Rightarrow> extractBackupLoop destPath rest fin fs4))))
            | TypeOther \<Rightarrow> extractBackupLoop destPath rest fin fs))"

definition extractTarGzBackup :: "Codec \<Rightarrow> string \<Rightarrow> string \<Rightarrow> filesystem \<Rightarrow> error option \<times> filesystem" where
  "extractTarGzBackup codec backupFilePath destPath fs =
     (case os_Stat fs backupFilePath of
        Inl e \<Rightarrow> (Some (FailedToOpenBackupFile e), fs)
      | Inr (Directory _) \<Rightarrow> (Some FailedToCreateGzipReader, fs)
      | Inr (File bytes _) \<Rightarrow>
          (case readTarGz codec bytes of
             None \<Rightarrow> (Some FailedToCreateGzipReader, fs)
           | Some (hs, fin) \<Rightarrow> extractBackupLoop destPath hs fin fs))"

fun removeEntries :: "string \<Rightarrow> string list \<Rightarrow> filesystem \<Rightarrow> error option \<times> filesystem" where
  "removeEntries dirPath [] fs = (None, fs)"
| "removeEntries dirPath (entry # rest) fs =
     (case os_RemoveAll (Join dirPath entry) fs of
        Inl e \<Rightarrow> (Some (FailedToRemove (Join dirPath entry) e), fs)
      | Inr fs1 \<Rightarrow> removeEntries dirPath rest fs1)"

definition clearDirectory :: "string \<Rightarrow> filesystem \<Rightarrow> error option \<times> filesystem" where
  "clearDirectory dirPath fs =
     (case os_ReadDir dirPath fs of
        Inl e \<Rightarrow> (Some (FailedToReadDirectory e), fs)
      | Inr names \<Rightarrow> removeEntries dirPath names fs)"

definition RestoreBackupFromArchive :: "Codec \<Rightarrow> string \<Rightarrow> string \<Rightarrow> filesystem \<Rightarrow> error option \<times> filesystem" where
  "RestoreBackupFromArchive codec backupFilePath serverFolderPath fs =
     (if IsNotExist (os_Stat fs backupFilePath) then (Some BackupFileNotFound, fs)
      else if IsNotExist (os_Stat fs serverFolderPath) then (Some ServerFolderNotFound, fs)
      else (case clearDirectory serverFolderPath fs of
              (Some e, fs1) \<Rightarrow> (Some (FailedToClearServerDirectory e), fs1)
            | (None, fs1) \<Rightarrow>
                (case extractTarGzBackup codec backupFilePath serverFolderPath fs1 of
                   (Some e, fs2) \<Rightarrow> (Some (FailedToExtractBackup e), fs2)
                 | (None, fs2) \<Rightarrow> (None, fs2))))"

text \<open>\<open>ValidateBackupPath\<close>: make the directory if it is missing, then probe it with a test file.\<close>

definition ValidateBackupPath :: "string \<Rightarrow> filesystem \<Rightarrow> error option \<times> filesystem" where
  "ValidateBackupPath backupPath fs =
     (case (if IsNotExist (os_Stat fs backupPath) then os_MkdirAll backupPath 493 fs else Inr fs) of
        Inl e \<Rightarrow> (Some (BackupPathCannotBeCreated e), fs)
      | Inr fs1 \<Rightarrow>
          (let testFile = Join backupPath ''.write_test'' in
           case os_Create testFile fs1 of
             Inl e \<Rightarrow> (Some (BackupPathNotWritable e), fs1)
           | Inr fs2 \<Rightarrow>
               (let fs3 = writeFile testFile ''test'' fs2 in
                case os_Remove testFile fs3 of Inl e \<Rightarrow> (None, fs3) | Inr fs4 \<Rightarrow> (None, fs4))))"

section \<open>Timestamps (Go package time, and the text the database keeps)\<close>

text \<open>
  A \<open>time.Time\<close> is an instant together with a location. Here it is the reading of the
  clock in that location (date and time of day, as \<open>Year\<close>, \<open>Month\<close>, ... return them) with
  the location's offset from UTC in seconds at that instant (\<open>Zone\<close>). \<open>Unix\<close> and
  \<open>UnixNano\<close> give the instant back: seconds and nanoseconds since 1 January 1970 UTC;
  \<open>daysSinceEpoch\<close> is the number of days from that date to a date of the Gregorian
  calendar.
\<close>

record GoTime =
  Year :: int
  Month :: int
  Day :: int
  Hour :: int
  Minute :: int
  Second :: int
  Nanosecond :: int
  ZoneOffset :: int

definition daysSinceEpoch :: "int \<Rightarrow> int \<Rightarrow> int \<Rightarrow> int" where
  "daysSinceEpoch y m d =
     (let y1 = (if m \<le> 2 then y - 1 else y);
          era = y1 div 400;
          yoe = y1 - era * 400;
          mp = (if m > 2 then m - 3 else m + 9);
          doy = (153 * mp + 2) div 5 + d - 1;
          doe = yoe * 365 + yoe div 4 - yoe div 100 + doy
      in era * 146097 + doe - 719468)"

definition Unix :: "GoTime \<Rightarrow> int" where
  "Unix t = daysSinceEpoch (Year t) (Month t) (Day t) * 86400
              + Hour t * 3600 + Minute t * 60 + Second t - ZoneOffset t"

definition UnixNano :: "GoTime \<Rightarrow> int" where
  "UnixNano t = Unix t * 1000000000 + Nanosecond t"

text \<open>
  The SQLite driver of gorm binds a \<open>time.Time\<close> as text, formatted in the time's own
  location with the layout \<open>2006-01-02 15:04:05.999999999-07:00\<close>: the clock reading, the
  fraction of the second without its trailing zeros (nothing when it is zero), and the
  offset from UTC. gorm stamps \<open>CreatedAt\<close> with the local time, so this text is what the
  column \<open>created_at\<close> holds. \<open>sqliteTimestamp\<close> is \<open>Format\<close> with that layout, for the years
  0 to 9999; \<open>formatZone\<close> is the layout element \<open>-07:00\<close>, which works on whole minutes,
  the division truncating towards zero.
\<close>

definition digitChar :: "int \<Rightarrow> char" where
  "digitChar d = ''0123456789'' ! nat d"

definition pad2 :: "int \<Rightarrow> string" where
  "pad2 n = [digitChar (n div 10 mod 10), digitChar (n mod 10)]"

definition pad4 :: "int \<Rightarrow> string" where
  "pad4 n = pad2 (n div 100) @ pad2 (n mod 100)"

definition pad9 :: "int \<Rightarrow> string" where
  "pad9 n = pad4 (n div 100000) @ pad4 (n div 10 mod 10000) @ [digitChar (n mod 10)]"

definition formatNano :: "int \<Rightarrow> string" where
  "formatNano n =
     (if n = 0 then [] else CHR ''.'' # rev (dropWhile (\<lambda>c. c = CHR ''0'') (rev (pad9 n))))"

definition formatZone :: "int \<Rightarrow> string" where
  "formatZone offset =
     (let zone = (if offset < 0 then - ((- offset) div 60) else offset div 60) in
      if zone < 0 then CHR ''-'' # pad2 ((- zone) div 60) @ '':'' @ pad2 ((- zone) mod 60)
      else CHR ''+'' # pad2 (zone div 60) @ '':'' @ pad2 (zone mod 60))"

definition sqliteTimestamp :: "GoTime \<Rightarrow> string" where
  "sqliteTimestamp t =
     pad4 (Year t) @ ''-'' @ pad2 (Month t) @ ''-'' @ pad2 (Day t) @ '' '' @
     pad2 (Hour t) @ '':'' @ pad2 (Minute t) @ '':'' @ pad2 (Second t) @
     formatNano (Nanosecond t) @ formatZone (ZoneOffset t)"

section \<open>Backup records (models: Backup)\<close>

text \<open>
  \<open>models.Backup\<close>; the fields \<open>ID\<close> and \<open>ServerID\<close> are \<open>BackupID\<close> and
  \<open>BackupServerID\<close> here, since \<open>Schedule\<close> has fields of the same names. The table is
  the list of its rows with the last primary key given out. The database library
  (gorm) is external: whether a call fails is a parameter, \<open>Faults\<close>, one flag per call.
\<close>

record Backup =
  BackupID :: nat
  BackupServerID :: nat
  FileName :: string
  FilePath :: string
  FileSize :: int
  CreatedAt :: GoTime

record Database =
  backups :: "Backup list"
  lastID :: nat

record Faults =
  countFails :: bool
  oldestFails :: bool
  deleteFails :: bool
  insertFails :: bool

definition ofServer :: "nat \<Rightarrow> Database \<Rightarrow> Backup list" where
  "ofServer serverID d = filter (\<lambda>b. BackupServerID b = serverID) (backups d)"

definition CountBackups :: "Faults \<Rightarrow> nat \<Rightarrow> Database \<Rightarrow> error + int" where
  "CountBackups faults serverID d =
     (if countFails faults then Inl DBError else Inr (int (length (ofServer serverID d))))"

text \<open>
  \<open>GetOldestBackup\<close>: \<open>Order("created_at ASC").First\<close>, which gorm completes with the
  primary key as the second sort column; no row is the error \<open>RecordNotFound\<close>. The
  database sorts the column as it holds it: \<open>createdAtColumn\<close> is the text of the row,
  and SQLite compares two texts byte by byte, a proper prefix coming first, which is
  the order \<open><\<close> of strings here. So \<open>older x y\<close> says that the row \<open>x\<close> comes before the
  row \<open>y\<close> in the order of the query; it compares the stored texts, not the instants.
\<close>

definition createdAtColumn :: "Backup \<Rightarrow> string" where
  "createdAtColumn b = sqliteTimestamp (CreatedAt b)"

definition older :: "Backup \<Rightarrow> Backup \<Rightarrow> bool" where
  "older x y = (createdAtColumn x < createdAtColumn y \<or>
                (createdAtColumn x = createdAtColumn y \<and> BackupID x < BackupID y))"

definition GetOldestBackup :: "Faults \<Rightarrow> nat \<Rightarrow> Database \<Rightarrow> error + Backup" where
  "GetOldestBackup faults serverID d =
     (if oldestFails faults then Inl DBError
      else (case ofServer serverID d of
              [] \<Rightarrow> Inl RecordNotFound
            | b # bs \<Rightarrow> Inr (fold (\<lambda>x m. if older x m then x else m) bs b)))"

definition Delete :: "Faults \<Rightarrow> Backup \<Rightarrow> Database \<Rightarrow> error + Database" where
  "Delete faults b d =
     (if deleteFails faults then Inl DBError
      else Inr (d\<lparr>backups := filter (\<lambda>x. BackupID x \<noteq> BackupID b) (backups d)\<rparr>))"

text \<open>
  \<open>models.CreateBackup\<close>: the insert; \<open>now\<close> is the time gorm stamps the row with, the
  current time in the local time zone of the machine.
\<close>

definition models_CreateBackup ::
  "Faults \<Rightarrow> GoTime \<Rightarrow> nat \<Rightarrow> string \<Rightarrow> string \<Rightarrow> int \<Rightarrow> Database \<Rightarrow> error + Backup \<times> Database" where
  "models_CreateBackup faults now serverID fileName filePath fileSize d =
     (if insertFails faults then Inl DBError
      else (let backup = \<lparr>BackupID = Suc (lastID d), BackupServerID = serverID, FileName = fileName,
                          FilePath = filePath, FileSize = fileSize, CreatedAt = now\<rparr>
            in Inr (backup, d\<lparr>backups := backups d @ [backup], lastID := Suc (lastID d)\<rparr>)))"

section \<open>Rotation and backup creation\<close>

record World =
  files :: filesystem
  database :: Database

text \<open>\<open>RotateBackups\<close>: at most one eviction; a failed file removal is only logged.\<close>

definition RotateBackups :: "Faults \<Rightarrow> nat \<Rightarrow> int \<Rightarrow> World \<Rightarrow> error option \<times> World" where
  "RotateBackups faults serverID maxBackups w =
     (case CountBackups faults serverID (database w) of
        Inl e \<Rightarrow> (Some (FailedToCountBackups e), w)
      | Inr count \<Rightarrow>
          if count \<ge> maxBackups then
            (case GetOldestBackup faults serverID (database w) of
               Inl e \<Rightarrow> (Some (FailedToGetOldestBackup e), w)
             | Inr oldestBackup \<Rightarrow>
                 (let w1 = (case os_Remove (FilePath oldestBackup) (files w) of
                              Inl e \<Rightarrow> w
                            | Inr fs1 \<Rightarrow> w\<lparr>files := fs1\<rparr>)
                  in case Delete faults oldestBackup (database w1) of
                       Inl e \<Rightarrow> (Some (FailedToDeleteBackupRecord e), w1)
                     | Inr d1 \<Rightarrow> (None, w1\<lparr>database := d1\<rparr>)))
          else (None, w))"

text \<open>
  \<open>models.Server\<close> is declared outside the given sources; these are the fields the
  backup code reads (\<open>ID\<close> and \<open>Name\<close> are \<open>Server_ID\<close> and \<open>Server_Name\<close> here).
\<close>

record Server =
  Server_ID :: nat
  Server_Name :: string
  FolderPath :: string
  BackupPath :: string
  MaxBackups :: int
  Status :: string

text \<open>
  What a request or a firing takes from outside the program: the codec, the database
  faults, the clock, and the date and random digits \<open>GenerateBackupFileName\<close> draws.
\<close>

record Env =
  envCodec :: Codec
  envFaults :: Faults
  envNow :: GoTime
  envDate :: string
  envRandom :: string

definition GenerateBackupFileName :: "Env \<Rightarrow> string \<Rightarrow> string" where
  "GenerateBackupFileName env serverName = serverName @ ''_'' @ envDate env @ ''_'' @ envRandom env @ ''.tar.gz''"

text \<open>An HTTP response: the status code and the message or error text of the JSON body.\<close>

datatype Response = Response nat string

text \<open>
  \<open>handlers.CreateBackup\<close>. \<open>found\<close> is the result of \<open>models.GetServerByName\<close>. When the
  insert fails the archive just written is removed again. The response texts are the
  fixed part of the message, without the formatted error.
\<close>

definition handlers_CreateBackup :: "Env \<Rightarrow> Server option \<Rightarrow> World \<Rightarrow> Response \<times> World" where
  "handlers_CreateBackup env found w =
     (case found of
        None \<Rightarrow> (Response 404 ''Server not found'', w)
      | Some server \<Rightarrow>
          if BackupPath server = [] then
            (Response 400 ''Backup path not configured. Please set it in Settings first.'', w)
          else
            (case RotateBackups (envFaults env) (Server_ID server) (MaxBackups server) w of
               (Some e, w1) \<Rightarrow> (Response 500 ''Failed to rotate backups'', w1)
             | (None, w1) \<Rightarrow>
                 (let fileName = GenerateBackupFileName env (Server_Name server) in
                  case CreateTarGzBackup (envCodec env) (FolderPath server) (BackupPath server) fileName (files w1) of
                    (Inl e, fs2) \<Rightarrow> (Response 500 ''Failed to create backup'', w1\<lparr>files := fs2\<rparr>)
                  | (Inr (backupPath, fileSize), fs2) \<Rightarrow>
                      (case models_CreateBackup (envFaults env) (envNow env) (Server_ID server) fileName backupPath fileSize (database w1) of
                         Inl e \<Rightarrow>
                           (Response 500 ''Failed to save backup record'',
                            w1\<lparr>files := (case os_Remove backupPath fs2 of Inl e' \<Rightarrow> fs2 | Inr fs3 \<Rightarrow> fs3)\<rparr>)
                       | Inr (backup, d2) \<Rightarrow>
                           (Response 200 ''Backup created successfully'', \<lparr>files = fs2, database = d2\<rparr>)))))"

text \<open>
  \<open>executeBackup\<close>, the scheduled firing. It returns nothing; the log line it ends with
  is the first component here.
\<close>

datatype LogLine = LogSkipped | LogFailed error | LogBackupCreated string

definition executeBackup :: "Env \<Rightarrow> Server \<Rightarrow> Schedule \<Rightarrow> World \<Rightarrow> LogLine \<times> World" where
  "executeBackup env server schedule w =
     (if BackupPath server = [] then (LogSkipped, w)
      else
        (case RotateBackups (envFaults env) (Server_ID server) (MaxBackups server) w of
           (Some e, w1) \<Rightarrow> (LogFailed e, w1)
         | (None, w1) \<Rightarrow>
             (let fileName = GenerateBackupFileName env (Server_Name server) in
              case CreateTarGzBackup (envCodec env) (FolderPath server) (BackupPath server) fileName (files w1) of
                (Inl e, fs2) \<Rightarrow> (LogFailed e, w1\<lparr>files := fs2\<rparr>)
              | (Inr (backupFilePath, fileSize), fs2) \<Rightarrow>
                  (case models_CreateBackup (envFaults env) (envNow env) (Server_ID server) fileName backupFilePath fileSize (database w1) of
                     Inl e \<Rightarrow> (LogFailed e, w1\<lparr>files := fs2\<rparr>)
                   | Inr (backup, d2) \<Rightarrow> (LogBackupCreated fileName, \<lparr>files = fs2, database = d2\<rparr>)))))"

section \<open>Backup settings (handlers: UpdateBackupSettings)\<close>

text \<open>
  \<open>handlers.UpdateBackupSettings\<close>. \<open>found\<close> is the result of \<open>models.GetServerByName\<close>,
  \<open>formOk\<close> that of \<open>r.ParseForm\<close>. The method \<open>server.UpdateBackupSettings\<close> is declared
  outside the given sources and is the parameter \<open>save\<close> (\<open>None\<close> when it fails). The
  result is the response, the server record and the file system after the request.
\<close>

definition UpdateBackupSettings ::
  "(string \<Rightarrow> int \<Rightarrow> Server \<Rightarrow> Server option) \<Rightarrow> Server option \<Rightarrow> bool \<Rightarrow> string \<Rightarrow> string \<Rightarrow> filesystem
     \<Rightarrow> Response \<times> Server option \<times> filesystem" where
  "UpdateBackupSettings save found formOk backupPath maxBackupsStr fs =
     (case found of
        None \<Rightarrow> (Response 404 ''Server not found'', None, fs)
      | Some server \<Rightarrow>
          if \<not> formOk then (Response 400 ''Error parsing form'', Some server, fs)
          else if backupPath = [] then (Response 400 ''Backup path is required'', Some server, fs)
          else
            (case Atoi maxBackupsStr of
               None \<Rightarrow> (Response 400 ''Max backups must be between 1 and 3'', Some server, fs)
             | Some maxBackups \<Rightarrow>
                 if maxBackups < 1 \<or> maxBackups > 3 then
                   (Response 400 ''Max backups must be between 1 and 3'', Some server, fs)
                 else
                   (case ValidateBackupPath backupPath fs of
                      (Some e, fs1) \<Rightarrow> (Response 400 ''Invalid backup path'', Some server, fs1)
                    | (None, fs1) \<Rightarrow>
                        (case save backupPath maxBackups server of
                           None \<Rightarrow> (Response 500 ''Failed to update settings'', Some server, fs1)
                         | Some server' \<Rightarrow>
                             (Response 200 ''Backup settings updated successfully'', Some server', fs1)))))"

section \<open>Example data\<close>

text \<open>
  Concrete inputs for the closed instances below: a codec that reads the archives a
  table lists, a server with three backups, and the file system they live in.
\<close>

definition toyCodec :: "(string \<times> TarEntry list) list \<Rightarrow> Codec" where
  "toyCodec table =
     \<lparr>readTarGz = (\<lambda>bytes. case map_of table bytes of None \<Rightarrow> None | Some hs \<Rightarrow> Some (hs, EndOfArchive)),
      readTar = (\<lambda>bytes. case map_of table bytes of None \<Rightarrow> ([], BrokenStream) | Some hs \<Rightarrow> (hs, EndOfArchive)),
      readZip = (\<lambda>bytes. None),
      writeTarGz = (\<lambda>hs. ''tgz''),
      writtenBeforeClose = (\<lambda>hs. 0)\<rparr>"

definition noFaults :: Faults where
  "noFaults = \<lparr>countFails = False, oldestFails = False, deleteFails = False, insertFails = False\<rparr>"

definition exampleTime :: "int \<Rightarrow> GoTime" where
  "exampleTime t =
     \<lparr>Year = 2026, Month = 1, Day = 4, Hour = t div 60, Minute = t mod 60, Second = 0,
      Nanosecond = 0, ZoneOffset = 0\<rparr>"

definition exampleBackup :: "nat \<Rightarrow> int \<Rightarrow> Backup" where
  "exampleBackup i t =
     \<lparr>BackupID = i, BackupServerID = 1, FileName = ''old'' @ replicate i CHR ''x'' @ ''.tar.gz'',
      FilePath = ''/backups/old'' @ replicate i CHR ''x'' @ ''.tar.gz'', FileSize = 10,
      CreatedAt = exampleTime t\<rparr>"

definition exampleFiles :: filesystem where
  "exampleFiles =
     [([''backups''], Directory 493),
      ([''backups'', ''oldx.tar.gz''], File ''tgz'' 420),
      ([''backups'', ''oldxx.tar.gz''], File ''tgz'' 420),
      ([''backups'', ''oldxxx.tar.gz''], File ''tgz'' 420),
      ([''srv''], Directory 493),
      ([''srv'', ''mc''], Directory 493),
      ([''srv'', ''mc'', ''world.dat''], File ''data'' 420)]"

definition exampleWorld :: World where
  "exampleWorld =
     \<lparr>files = exampleFiles,
      database = \<lparr>backups = [exampleBackup 2 200, exampleBackup 1 100, exampleBackup 3 300], lastID = 3\<rparr>\<rparr>"

definition exampleServer :: Server where
  "exampleServer =
     \<lparr>Server_ID = 1, Server_Name = ''mc'', FolderPath = ''/srv/mc'', BackupPath = ''/backups'',
      MaxBackups = 2, Status = ''offline''\<rparr>"

definition exampleEnv :: Env where
  "exampleEnv =
     \<lparr>envCodec = toyCodec [], envFaults = noFaults, envNow = exampleTime 400, envDate = ''20260104'',
      envRandom = ''0042''\<rparr>"

text \<open>
  Two backups of one server made around the end of daylight saving time in New York on
  1 November 2026, when the clocks went from 02:00 at UTC-4 back to 01:00 at UTC-5: the
  first at 01:50:00.5 before the change, the second just under twenty minutes later, at
  01:10:00.25 after it.
\<close>

definition backupBeforeChange :: Backup where
  "backupBeforeChange =
     \<lparr>BackupID = 1, BackupServerID = 1, FileName = ''mc_20261101_0001.tar.gz'',
      FilePath = ''/backups/mc_20261101_0001.tar.gz'', FileSize = 10,
      CreatedAt = \<lparr>Year = 2026, Month = 11, Day = 1, Hour = 1, Minute = 50, Second = 0,
                   Nanosecond = 500000000, ZoneOffset = - 14400\<rparr>\<rparr>"

definition backupAfterChange :: Backup where
  "backupAfterChange =
     \<lparr>BackupID = 2, BackupServerID = 1, FileName = ''mc_20261101_0002.tar.gz'',
      FilePath = ''/backups/mc_20261101_0002.tar.gz'', FileSize = 10,
      CreatedAt = \<lparr>Year = 2026, Month = 11, Day = 1, Hour = 1, Minute = 10, Second = 0,
                   Nanosecond = 250000000, ZoneOffset = - 18000\<rparr>\<rparr>"

definition offsetChangeWorld :: World where
  "offsetChangeWorld =
     \<lparr>files = [([''backups''], Directory 493),
               ([''backups'', ''mc_20261101_0001.tar.gz''], File ''tgz'' 420),
               ([''backups'', ''mc_20261101_0002.tar.gz''], File ''tgz'' 420)],
      database = \<lparr>backups = [backupBeforeChange, backupAfterChange], lastID = 2\<rparr>\<rparr>"

section \<open>Vocabulary of the extraction theorems\<close>

text \<open>
  A name is plain when it can stand in a cleaned rooted path. \<open>passesCheck\<close> is the path
  check of \<open>extractTarGz\<close>, \<open>extractTar\<close> and \<open>extractZip\<close>; \<open>withoutRejected\<close> is a codec
  that never delivers the entries this check rejects.
\<close>

definition plain :: "string \<Rightarrow> bool" where
  "plain c = (c \<noteq> [] \<and> c \<noteq> ''.'' \<and> c \<noteq> ''..'' \<and> CHR ''/'' \<notin> set c)"

definition passesCheck :: "string \<Rightarrow> string \<Rightarrow> bool" where
  "passesCheck destPath name = HasPrefix (Join destPath name) (Clean destPath @ ''/'')"

text \<open>
  \<open>dirsExist D fs\<close>: the directory \<open>D\<close> and all directories above it exist.
  \<open>changedOnlyBelow D fs fs'\<close>: the two file systems agree at every path that is not
  strictly below \<open>D\<close>.
\<close>

definition dirsExist :: "path \<Rightarrow> filesystem \<Rightarrow> bool" where
  "dirsExist D fs = (\<forall>q. prefix q D \<longrightarrow> (\<exists>m. lookup fs q = Some (Directory m)))"

definition changedOnlyBelow :: "path \<Rightarrow> filesystem \<Rightarrow> filesystem \<Rightarrow> bool" where
  "changedOnlyBelow D fs fs' = (\<forall>q. \<not> strict_prefix D q \<longrightarrow> lookup fs' q = lookup fs q)"

definition withoutRejected :: "string \<Rightarrow> Codec \<Rightarrow> Codec" where
  "withoutRejected destPath c =
     c\<lparr>readTarGz := (\<lambda>bytes. case readTarGz c bytes of
                                None \<Rightarrow> None
                              | Some (hs, fin) \<Rightarrow> Some (filter (\<lambda>h. passesCheck destPath (HeaderName h)) hs, fin)),
       readTar := (\<lambda>bytes. case readTar c bytes of
                              (hs, fin) \<Rightarrow> (filter (\<lambda>h. passesCheck destPath (HeaderName h)) hs, fin)),
       readZip := (\<lambda>bytes. case readZip c bytes of
                              None \<Rightarrow> None
                            | Some zs \<Rightarrow> Some (filter (\<lambda>z. passesCheck destPath (ZipName z)) zs))\<rparr>"

definition insertFailsEnv :: Env where
  "insertFailsEnv = exampleEnv\<lparr>envFaults := noFaults\<lparr>insertFails := True\<rparr>\<rparr>"

definition evilEntry :: TarEntry where
  "evilEntry = \<lparr>HeaderName = ''../mc2/evil.txt'', HeaderTypeflag = TypeReg, HeaderMode = 420,
                Data = ''pwned'', DataIntact = True\<rparr>"

definition escapeEntry :: TarEntry where
  "escapeEntry = \<lparr>HeaderName = ''../../escape.txt'', HeaderTypeflag = TypeReg, HeaderMode = 420,
                  Data = ''pwned'', DataIntact = True\<rparr>"

definition goodEntry :: TarEntry where
  "goodEntry = \<lparr>HeaderName = ''ok.txt'', HeaderTypeflag = TypeReg, HeaderMode = 420,
                Data = ''fine'', DataIntact = True\<rparr>"

definition craftedCodec :: Codec where
  "craftedCodec = toyCodec [(''crafted'', [evilEntry, goodEntry]), (''escaping'', [goodEntry, escapeEntry])]"

definition craftedFiles :: filesystem where
  "craftedFiles =
     exampleFiles @ [([''backups'', ''crafted.tar.gz''], File ''crafted'' 420),
                     ([''backups'', ''escaping.tar.gz''], File ''escaping'' 420)]"

definition brokenFiles :: filesystem where
  "brokenFiles =
     [([''backups''], File ''not a directory'' 420),
      ([''srv''], Directory 493),
      ([''srv'', ''mc''], Directory 493),
      ([''srv'', ''mc'', ''world.dat''], File ''data'' 420)]"

section \<open>Scheduler core: theorems\<close>

lemma AddSchedule_registers:
  "Enabled schedule \<Longrightarrow> schedules s (ID schedule) = None \<Longrightarrow> parses (GetCronExpression schedule) \<Longrightarrow>
   fst (AddSchedule parses schedule s) = None \<and>
   schedules (snd (AddSchedule parses schedule s)) (ID schedule) = Some (Suc (nextID (cron s)))"
  by (simp add: AddSchedule_def addScheduleInternal_def AddFunc_def)

text \<open>
  Claim C8. For an enabled schedule whose id is already in the service's map, \<open>AddSchedule\<close>
  returns the already-exists error (and changes nothing); for an id that is not in the
  map, \<open>RemoveSchedule\<close> returns nil and the service, map included, is unchanged.
\<close>

theorem C8_duplicate_add_fails_remove_absent_noop:
  "(Enabled schedule \<and> schedules s (ID schedule) \<noteq> None \<longrightarrow>
      AddSchedule parses schedule s = (Some (ScheduleAlreadyExists (ID schedule)), s)) \<and>
   (schedules s scheduleID = None \<longrightarrow> RemoveSchedule scheduleID s = (None, s))"
  by (auto simp: AddSchedule_def addScheduleInternal_def RemoveSchedule_def)

theorem C8_witness:
  "fst (AddSchedule (\<lambda>_. True) exampleSchedule emptyService) = None \<and>
   Enabled exampleSchedule \<and>
   schedules (snd (AddSchedule (\<lambda>_. True) exampleSchedule emptyService)) (ID exampleSchedule) \<noteq> None \<and>
   AddSchedule (\<lambda>_. True) exampleSchedule (snd (AddSchedule (\<lambda>_. True) exampleSchedule emptyService))
     = (Some (ScheduleAlreadyExists 7), snd (AddSchedule (\<lambda>_. True) exampleSchedule emptyService)) \<and>
   schedules emptyService 9 = None \<and>
   RemoveSchedule 9 emptyService = (None, emptyService)"
proof -
  let ?s1 = "snd (AddSchedule (\<lambda>_. True) exampleSchedule emptyService)"
  have en: "Enabled exampleSchedule" and idv: "ID exampleSchedule = 7"
    by (simp_all add: exampleSchedule_def)
  have reg: "fst (AddSchedule (\<lambda>_. True) exampleSchedule emptyService) = None \<and>
             schedules ?s1 (ID exampleSchedule) = Some (Suc (nextID (cron emptyService)))"
    by (rule AddSchedule_registers) (simp_all add: exampleSchedule_def emptyService_def)
  then have isreg: "schedules ?s1 (ID exampleSchedule) \<noteq> None" by simp
  have absent: "schedules emptyService 9 = None" by (simp add: emptyService_def)
  have "AddSchedule (\<lambda>_. True) exampleSchedule ?s1 = (Some (ScheduleAlreadyExists (ID exampleSchedule)), ?s1)"
    using C8_duplicate_add_fails_remove_absent_noop [of exampleSchedule ?s1 "\<lambda>_. True" 9] en isreg
    by blast
  moreover have "RemoveSchedule 9 emptyService = (None, emptyService)"
    using C8_duplicate_add_fails_remove_absent_noop [of exampleSchedule emptyService "\<lambda>_. True" 9] absent
    by blast
  ultimately show ?thesis using en reg isreg absent idv by simp
qed

text \<open>
  Claim C10. For a schedule whose \<open>Enabled\<close> flag is false, \<open>AddSchedule\<close> returns nil
  and the service (engine and schedule-to-entry map) is exactly what it was.
\<close>

theorem C10_disabled_add_is_silent_noop:
  "\<not> Enabled schedule \<Longrightarrow> AddSchedule parses schedule s = (None, s)"
  by (simp add: AddSchedule_def)

theorem C10_witness:
  "\<not> Enabled (exampleSchedule\<lparr>Enabled := False\<rparr>) \<and>
   AddSchedule (\<lambda>_. True) (exampleSchedule\<lparr>Enabled := False\<rparr>) emptyService = (None, emptyService)"
  using C10_disabled_add_is_silent_noop [of "exampleSchedule\<lparr>Enabled := False\<rparr>" "\<lambda>_. True" emptyService]
  by simp

section \<open>Cron validator: theorems\<close>

lemma validateSingle_bounds:
  assumes "spec_field_range fieldName = Some (lo, hi)"
    and "validateSingleCronValue fieldName v = None"
  shows "\<exists>n. Atoi v = Some n \<and> lo \<le> n \<and> n \<le> hi"
  using assms
  by (auto simp: validateSingleCronValue_def spec_field_range_def split: option.splits if_splits)

lemma validateRange_bounds:
  assumes "spec_field_range fieldName = Some (lo, hi)"
    and "validateCronRange fieldName a b = None"
  shows "lo \<le> a \<and> b \<le> hi"
  using assms
  by (auto simp: validateCronRange_def spec_field_range_def split: if_splits)

lemma validateParts_all:
  "validateParts fieldName parts = None \<Longrightarrow> p \<in> set parts \<Longrightarrow>
   validateSingleCronValue fieldName (TrimSpace p) = None"
  by (induction parts) (auto split: option.splits)

text \<open>
  Claim C5, as amended. For each of the five fields, a value the validator accepts is
  the wildcard, or a step \<open>*/n\<close> with \<open>n\<close> at least one (and no upper bound), or a list
  whose every part is a number within the field's range, or a range \<open>a-b\<close> with
  \<open>a < b\<close> and both ends within the field's range, or a single number within it.
\<close>

theorem C5_accepted_values_are_bounded_except_steps:
  assumes rng: "spec_field_range fieldName = Some (lo, hi)"
    and ok: "ValidateCronField fieldName v = None"
  shows "v = ''*''
       \<or> (HasPrefix v ''*/'' \<and> (\<exists>step. Atoi (TrimPrefix v ''*/'') = Some step \<and> 1 \<le> step))
       \<or> (CHR '','' \<in> set v \<and>
            (\<forall>part \<in> set (Split v CHR '',''). \<exists>n. Atoi (TrimSpace part) = Some n \<and> lo \<le> n \<and> n \<le> hi))
       \<or> (CHR ''-'' \<in> set v \<and>
            (\<exists>p0 p1 a b. Split v CHR ''-'' = [p0, p1] \<and> Atoi (TrimSpace p0) = Some a \<and>
               Atoi (TrimSpace p1) = Some b \<and> lo \<le> a \<and> a < b \<and> b \<le> hi))
       \<or> (\<exists>n. Atoi v = Some n \<and> lo \<le> n \<and> n \<le> hi)"
proof -
  consider (empty) "v = []" | (star) "v = ''*''"
    | (step) "v \<noteq> []" "v \<noteq> ''*''" "HasPrefix v ''*/''"
    | (list) "v \<noteq> []" "v \<noteq> ''*''" "\<not> HasPrefix v ''*/''" "CHR '','' \<in> set v"
    | (range) "v \<noteq> []" "v \<noteq> ''*''" "\<not> HasPrefix v ''*/''" "CHR '','' \<notin> set v" "CHR ''-'' \<in> set v"
    | (single) "v \<noteq> []" "v \<noteq> ''*''" "\<not> HasPrefix v ''*/''" "CHR '','' \<notin> set v" "CHR ''-'' \<notin> set v"
    by blast
  then show ?thesis
  proof cases
    case empty
    with ok show ?thesis by (simp add: ValidateCronField_def)
  next
    case star
    then show ?thesis by simp
  next
    case step
    with ok have "\<exists>n. Atoi (TrimPrefix v ''*/'') = Some n \<and> 1 \<le> n"
      by (auto simp: ValidateCronField_def split: option.splits if_splits)
    with step show ?thesis by blast
  next
    case list
    with ok have "validateParts fieldName (Split v CHR '','') = None"
      by (simp add: ValidateCronField_def)
    then have "\<forall>part \<in> set (Split v CHR '',''). \<exists>n. Atoi (TrimSpace part) = Some n \<and> lo \<le> n \<and> n \<le> hi"
      using validateParts_all validateSingle_bounds [OF rng] by blast
    with list show ?thesis by blast
  next
    case range
    with ok have r: "(case Split v CHR ''-'' of
           [p0, p1] \<Rightarrow>
             (case (Atoi (TrimSpace p0), Atoi (TrimSpace p1)) of
                (Some start, Some end) \<Rightarrow>
                  if start \<ge> end then Some (InvalidRange fieldName v)
                  else validateCronRange fieldName start end
              | _ \<Rightarrow> Some (InvalidRange fieldName v))
         | _ \<Rightarrow> Some (InvalidRange fieldName v)) = None"
      by (simp add: ValidateCronField_def)
    then obtain p0 p1 where sp: "Split v CHR ''-'' = [p0, p1]"
      by (auto split: list.splits)
    with r obtain a b where ab: "Atoi (TrimSpace p0) = Some a" "Atoi (TrimSpace p1) = Some b"
      and lt: "a < b" and vr: "validateCronRange fieldName a b = None"
      by (auto split: option.splits if_splits)
    from validateRange_bounds [OF rng vr] have "lo \<le> a" "b \<le> hi" by simp_all
    with sp ab lt range show ?thesis by blast
  next
    case single
    with ok have "validateSingleCronValue fieldName v = None"
      by (simp add: ValidateCronField_def)
    from validateSingle_bounds [OF rng this] show ?thesis by blast
  qed
qed

theorem C5_witness:
  "spec_field_range ''minute'' = Some (0, 59) \<and>
   ValidateCronField ''minute'' ''1-5'' = None \<and>
   (''1-5'' = ''*''
       \<or> (HasPrefix ''1-5'' ''*/'' \<and> (\<exists>step. Atoi (TrimPrefix ''1-5'' ''*/'') = Some step \<and> 1 \<le> step))
       \<or> (CHR '','' \<in> set ''1-5'' \<and>
            (\<forall>part \<in> set (Split ''1-5'' CHR '',''). \<exists>n. Atoi (TrimSpace part) = Some n \<and> 0 \<le> n \<and> n \<le> 59))
       \<or> (CHR ''-'' \<in> set ''1-5'' \<and>
            (\<exists>p0 p1 a b. Split ''1-5'' CHR ''-'' = [p0, p1] \<and> Atoi (TrimSpace p0) = Some a \<and>
               Atoi (TrimSpace p1) = Some b \<and> 0 \<le> a \<and> a < b \<and> b \<le> 59))
       \<or> (\<exists>n. Atoi ''1-5'' = Some n \<and> 0 \<le> n \<and> n \<le> 59))"
proof (intro conjI)
  show h1: "spec_field_range ''minute'' = Some (0, 59)"
    by (simp add: spec_field_range_def)
  show h2: "ValidateCronField ''minute'' ''1-5'' = None"
    by code_simp
  show "''1-5'' = ''*''
       \<or> (HasPrefix ''1-5'' ''*/'' \<and> (\<exists>step. Atoi (TrimPrefix ''1-5'' ''*/'') = Some step \<and> 1 \<le> step))
       \<or> (CHR '','' \<in> set ''1-5'' \<and>
            (\<forall>part \<in> set (Split ''1-5'' CHR '',''). \<exists>n. Atoi (TrimSpace part) = Some n \<and> 0 \<le> n \<and> n \<le> 59))
       \<or> (CHR ''-'' \<in> set ''1-5'' \<and>
            (\<exists>p0 p1 a b. Split ''1-5'' CHR ''-'' = [p0, p1] \<and> Atoi (TrimSpace p0) = Some a \<and>
               Atoi (TrimSpace p1) = Some b \<and> 0 \<le> a \<and> a < b \<and> b \<le> 59))
       \<or> (\<exists>n. Atoi ''1-5'' = Some n \<and> 0 \<le> n \<and> n \<le> 59)"
    by (rule C5_accepted_values_are_bounded_except_steps [OF h1 h2])
qed

text \<open>
  The claim as stated fails for steps: \<open>*/60\<close> is accepted for the minute field, whose
  range ends at 59.
\<close>

theorem C5_counterexample:
  "spec_field_range ''minute'' = Some (0, 59) \<and> HasPrefix ''*/60'' ''*/'' \<and>
   Atoi (TrimPrefix ''*/60'' ''*/'') = Some 60 \<and> \<not> (60 \<le> (59::int)) \<and>
   ValidateCronField ''minute'' ''*/60'' = None"
  by code_simp

section \<open>Rotation: theorems\<close>

text \<open>
  \<open>older\<close> is the strict order of the query (the stored text, then the primary key), and
  \<open>GetOldestBackup\<close> returns the first row of the server in it.
\<close>

lemma older_asym: "older x y \<Longrightarrow> \<not> older y x"
  by (auto simp: older_def)

lemma older_neg_trans: "\<not> older x y \<Longrightarrow> \<not> older y z \<Longrightarrow> \<not> older x z"
  by (auto simp: older_def)

lemma fold_older_in:
  "fold (\<lambda>x m. if older x m then x else m) bs b \<in> set (b # bs)"
  by (induction bs arbitrary: b) auto

lemma fold_older_first:
  "y \<in> set (b # bs) \<Longrightarrow> \<not> older y (fold (\<lambda>x m. if older x m then x else m) bs b)"
proof (induction bs arbitrary: b y)
  case Nil
  then show ?case by (simp add: older_def)
next
  case (Cons a bs)
  let ?c = "if older a b then a else b"
  let ?r = "fold (\<lambda>x m. if older x m then x else m) bs ?c"
  have r: "fold (\<lambda>x m. if older x m then x else m) (a # bs) b = ?r" by simp
  have ih: "\<And>z. z \<in> set (?c # bs) \<Longrightarrow> \<not> older z ?r" by (rule Cons.IH)
  have c: "\<not> older ?c ?r" by (rule ih) simp
  show ?case
  proof (cases "y \<in> set (?c # bs)")
    case True
    then show ?thesis unfolding r by (rule ih)
  next
    case False
    with Cons.prems have "\<not> older y ?c" by (auto dest: older_asym split: if_splits)
    from older_neg_trans [OF this c] show ?thesis unfolding r .
  qed
qed

lemma filter_neq_key_remove1:
  "distinct (map f xs) \<Longrightarrow> x \<in> set xs \<Longrightarrow> filter (\<lambda>y. f y \<noteq> f x) xs = remove1 x xs"
proof (induction xs)
  case Nil
  then show ?case by simp
next
  case (Cons a xs)
  show ?case
  proof (cases "a = x")
    case True
    with Cons.prems have "\<forall>y \<in> set xs. f y \<noteq> f x" by (auto simp: image_iff)
    then have "filter (\<lambda>y. f y \<noteq> f x) xs = xs" by (simp add: filter_id_conv)
    with True show ?thesis by simp
  next
    case False
    with Cons.prems have "x \<in> set xs" "f a \<noteq> f x" by (auto simp: image_iff)
    with Cons show ?thesis using False by simp
  qed
qed

lemma GetOldestBackup_props:
  assumes "GetOldestBackup faults serverID d = Inr oldest"
  shows "oldest \<in> set (ofServer serverID d)"
    and "\<forall>b \<in> set (ofServer serverID d). \<not> older b oldest"
proof -
  from assms obtain b bs where l: "ofServer serverID d = b # bs"
    and o: "oldest = fold (\<lambda>x m. if older x m then x else m) bs b"
    by (auto simp: GetOldestBackup_def split: if_splits list.splits)
  show "oldest \<in> set (ofServer serverID d)"
    unfolding l o by (rule fold_older_in)
  show "\<forall>b \<in> set (ofServer serverID d). \<not> older b oldest"
    unfolding l o using fold_older_first by blast
qed

lemma GetOldestBackup_succeeds:
  "\<not> oldestFails faults \<Longrightarrow> ofServer serverID d \<noteq> [] \<Longrightarrow> \<exists>oldest. GetOldestBackup faults serverID d = Inr oldest"
  by (auto simp: GetOldestBackup_def split: list.splits)

text \<open>
  What \<open>RotateBackups\<close> does on every input. Below the maximum it changes nothing. At or
  above it, with a working database and unique primary keys, it removes exactly one
  record: the row of this server that the query puts first, the one with the least text
  in \<open>created_at\<close> and, among equal texts, the least id; before that it tries to remove
  the record's file, and a failure of the removal is ignored. When the count is at or
  above the maximum and the server has no row, which takes a maximum of zero or less,
  the call fails and changes nothing. Whatever the maximum and whatever fails, at most
  one record is gone afterwards.
\<close>

lemma RotateBackups_below_maximum:
  "\<not> countFails faults \<Longrightarrow> int (length (ofServer serverID (database w))) < maxBackups \<Longrightarrow>
   RotateBackups faults serverID maxBackups w = (None, w)"
  by (simp add: RotateBackups_def CountBackups_def)

lemma RotateBackups_nothing_to_evict:
  "\<not> countFails faults \<Longrightarrow> \<not> oldestFails faults \<Longrightarrow>
   maxBackups \<le> int (length (ofServer serverID (database w))) \<Longrightarrow> ofServer serverID (database w) = [] \<Longrightarrow>
   RotateBackups faults serverID maxBackups w = (Some (FailedToGetOldestBackup RecordNotFound), w)"
  by (simp add: RotateBackups_def CountBackups_def GetOldestBackup_def)

lemma RotateBackups_evicts_first_of_query:
  assumes nofault: "\<not> countFails faults" "\<not> oldestFails faults" "\<not> deleteFails faults"
    and keys: "distinct (map BackupID (backups (database w)))"
    and ge: "maxBackups \<le> int (length (ofServer serverID (database w)))"
    and ne: "ofServer serverID (database w) \<noteq> []"
  shows "\<exists>oldest. oldest \<in> set (ofServer serverID (database w)) \<and>
           (\<forall>b \<in> set (ofServer serverID (database w)).
              createdAtColumn oldest \<le> createdAtColumn b \<and>
              (createdAtColumn oldest = createdAtColumn b \<longrightarrow> BackupID oldest \<le> BackupID b)) \<and>
           RotateBackups faults serverID maxBackups w =
             (None, \<lparr>files = (case os_Remove (FilePath oldest) (files w) of Inl e \<Rightarrow> files w | Inr fs1 \<Rightarrow> fs1),
                     database = (database w)\<lparr>backups := remove1 oldest (backups (database w))\<rparr>\<rparr>)"
proof -
  from GetOldestBackup_succeeds [OF nofault(2) ne]
  obtain oldest where g: "GetOldestBackup faults serverID (database w) = Inr oldest" by blast
  note p = GetOldestBackup_props [OF g]
  from p(1) have mem: "oldest \<in> set (backups (database w))" by (simp add: ofServer_def)
  have del: "filter (\<lambda>x. BackupID x \<noteq> BackupID oldest) (backups (database w)) = remove1 oldest (backups (database w))"
    by (rule filter_neq_key_remove1 [OF keys mem])
  have first: "\<forall>b \<in> set (ofServer serverID (database w)).
              createdAtColumn oldest \<le> createdAtColumn b \<and>
              (createdAtColumn oldest = createdAtColumn b \<longrightarrow> BackupID oldest \<le> BackupID b)"
    using p(2) by (auto simp: older_def not_less)
  have "RotateBackups faults serverID maxBackups w =
          (None, \<lparr>files = (case os_Remove (FilePath oldest) (files w) of Inl e \<Rightarrow> files w | Inr fs1 \<Rightarrow> fs1),
                  database = (database w)\<lparr>backups := remove1 oldest (backups (database w))\<rparr>\<rparr>)"
    using nofault ge g del
    by (cases "os_Remove (FilePath oldest) (files w)")
       (simp_all add: RotateBackups_def CountBackups_def Delete_def)
  with p(1) first show ?thesis by blast
qed

lemma RotateBackups_at_most_one:
  assumes keys: "distinct (map BackupID (backups (database w)))"
  shows "length (backups (database w))
           \<le> Suc (length (backups (database (snd (RotateBackups faults serverID maxBackups w)))))"
proof (cases "\<exists>oldest. \<not> countFails faults \<and> maxBackups \<le> int (length (ofServer serverID (database w))) \<and>
                GetOldestBackup faults serverID (database w) = Inr oldest \<and> \<not> deleteFails faults")
  case True
  then obtain oldest where c: "\<not> countFails faults" "maxBackups \<le> int (length (ofServer serverID (database w)))"
    and g: "GetOldestBackup faults serverID (database w) = Inr oldest" and d: "\<not> deleteFails faults" by blast
  from GetOldestBackup_props(1) [OF g] have mem: "oldest \<in> set (backups (database w))" by (simp add: ofServer_def)
  have del: "filter (\<lambda>x. BackupID x \<noteq> BackupID oldest) (backups (database w)) = remove1 oldest (backups (database w))"
    by (rule filter_neq_key_remove1 [OF keys mem])
  have "length (remove1 oldest (backups (database w))) = length (backups (database w)) - 1"
    using mem by (simp add: length_remove1)
  then show ?thesis
    using c g d del
    by (cases "os_Remove (FilePath oldest) (files w)")
       (simp_all add: RotateBackups_def CountBackups_def Delete_def)
next
  case False
  then have "database (snd (RotateBackups faults serverID maxBackups w)) = database w"
    by (auto simp: RotateBackups_def CountBackups_def Delete_def Let_def split: sum.splits)
  then show ?thesis by simp
qed

lemma RotateBackups_example:
  "RotateBackups noFaults 1 2 exampleWorld =
     (None, \<lparr>files = filter (\<lambda>e. fst e \<noteq> [''backups'', ''oldx.tar.gz'']) exampleFiles,
             database = \<lparr>backups = [exampleBackup 2 200, exampleBackup 3 300], lastID = 3\<rparr>\<rparr>) \<and>
   RotateBackups noFaults 1 5 exampleWorld = (None, exampleWorld)"
  by code_simp

text \<open>
  Claim C7. When the count has reached the maximum, \<open>RotateBackups\<close> is to delete the single
  oldest backup of the server. The row it deletes is the first in the order of the text
  in \<open>created_at\<close>, the local clock reading followed by the offset from UTC, and that row
  is not the oldest when the offset changed between two backups. At the end of daylight
  saving time the backup made at 01:50:00.5 (UTC-4) is the older one, by just under
  twenty minutes, yet the text of the backup made after the change,
  \<open>2026-11-01 01:10:00.25-05:00\<close>, sorts before its text \<open>2026-11-01 01:50:00.5-04:00\<close>. With
  these two backups and a maximum of two, \<open>GetOldestBackup\<close> returns the newer backup and
  \<open>RotateBackups\<close> removes its file and its record; the older backup stays.
\<close>

theorem C7_rotation_evicts_the_newer_backup_after_an_offset_change:
  "UnixNano (CreatedAt backupBeforeChange) = 1793512200500000000 \<and>
   UnixNano (CreatedAt backupAfterChange) = 1793513400250000000 \<and>
   UnixNano (CreatedAt backupBeforeChange) < UnixNano (CreatedAt backupAfterChange) \<and>
   createdAtColumn backupBeforeChange = ''2026-11-01 01:50:00.5-04:00'' \<and>
   createdAtColumn backupAfterChange = ''2026-11-01 01:10:00.25-05:00'' \<and>
   createdAtColumn backupAfterChange < createdAtColumn backupBeforeChange \<and>
   CountBackups noFaults 1 (database offsetChangeWorld) = Inr 2 \<and>
   GetOldestBackup noFaults 1 (database offsetChangeWorld) = Inr backupAfterChange \<and>
   RotateBackups noFaults 1 2 offsetChangeWorld =
     (None, \<lparr>files = [([''backups''], Directory 493),
                      ([''backups'', ''mc_20261101_0001.tar.gz''], File ''tgz'' 420)],
             database = \<lparr>backups = [backupBeforeChange], lastID = 2\<rparr>\<rparr>)"
  by code_simp

lemma Rotate_count:
  assumes "RotateBackups fl serverID maxBackups w = (None, w1)"
  shows "(int (length (ofServer serverID (database w))) < maxBackups \<and> w1 = w) \<or>
         (maxBackups \<le> int (length (ofServer serverID (database w))) \<and>
          length (ofServer serverID (database w1)) < length (ofServer serverID (database w)))"
proof (cases "int (length (ofServer serverID (database w))) < maxBackups")
  case True
  with assms show ?thesis
    by (auto simp: RotateBackups_def CountBackups_def split: if_splits)
next
  case False
  with assms obtain oldest where g: "GetOldestBackup fl serverID (database w) = Inr oldest"
    and d: "database w1 = (database w)\<lparr>backups := filter (\<lambda>x. BackupID x \<noteq> BackupID oldest) (backups (database w))\<rparr>"
    by (auto simp: RotateBackups_def CountBackups_def Delete_def Let_def
             split: if_splits sum.splits)
  from GetOldestBackup_props(1) [OF g] have mem: "oldest \<in> set (ofServer serverID (database w))" .
  have "ofServer serverID (database w1) = filter (\<lambda>x. BackupID x \<noteq> BackupID oldest) (ofServer serverID (database w))"
    by (auto simp: ofServer_def d intro: filter_cong)
  moreover have "length (filter (\<lambda>x. BackupID x \<noteq> BackupID oldest) (ofServer serverID (database w)))
                 < length (ofServer serverID (database w))"
    using mem by (intro length_filter_less [of oldest]) auto
  ultimately show ?thesis using False by simp
qed

lemma insert_count:
  assumes "models_CreateBackup fl t serverID fileName filePath fileSize d = Inr (backup, d2)"
  shows "length (ofServer serverID d2) = Suc (length (ofServer serverID d))"
  using assms by (auto simp: models_CreateBackup_def ofServer_def Let_def split: if_splits)

lemma handler_success:
  assumes "handlers_CreateBackup env found w = (Response 200 msg, w')"
  shows "\<exists>server w1 fileName filePath fileSize backup.
           found = Some server \<and>
           RotateBackups (envFaults env) (Server_ID server) (MaxBackups server) w = (None, w1) \<and>
           models_CreateBackup (envFaults env) (envNow env) (Server_ID server) fileName filePath fileSize (database w1)
             = Inr (backup, database w')"
  using assms
  apply (auto simp: handlers_CreateBackup_def Let_def split: option.splits if_splits prod.splits sum.splits)
  apply blast
  done

lemma firing_success:
  assumes "executeBackup env server schedule w = (LogBackupCreated name, w')"
  shows "\<exists>w1 fileName filePath fileSize backup.
           RotateBackups (envFaults env) (Server_ID server) (MaxBackups server) w = (None, w1) \<and>
           models_CreateBackup (envFaults env) (envNow env) (Server_ID server) fileName filePath fileSize (database w1)
             = Inr (backup, database w')"
  using assms
  apply (auto simp: executeBackup_def Let_def split: option.splits if_splits prod.splits sum.splits)
  apply blast
  done

lemma rotate_then_insert_bound:
  assumes r: "RotateBackups fl serverID maxBackups w = (None, w1)"
    and i: "models_CreateBackup fl t serverID fileName filePath fileSize (database w1) = Inr (backup, d2)"
  shows "int (length (ofServer serverID d2)) \<le> max maxBackups (int (length (ofServer serverID (database w))))"
  using Rotate_count [OF r] insert_count [OF i] by auto

text \<open>
  Claim C2, as amended. After a create-backup operation that completes, by request or
  by a scheduled firing, the server has at most as many Backup records as the larger of
  its configured maximum and the number it had before; so a server within its maximum
  stays within it, and one above it is not brought down.
\<close>

theorem C2_count_after_create_bounded_by_max_or_before:
  "(handlers_CreateBackup env (Some server) w = (Response 200 msg, w') \<longrightarrow>
      int (length (ofServer (Server_ID server) (database w')))
        \<le> max (MaxBackups server) (int (length (ofServer (Server_ID server) (database w))))) \<and>
   (executeBackup env server schedule w = (LogBackupCreated name, w'') \<longrightarrow>
      int (length (ofServer (Server_ID server) (database w'')))
        \<le> max (MaxBackups server) (int (length (ofServer (Server_ID server) (database w)))))"
proof (intro conjI impI)
  assume "handlers_CreateBackup env (Some server) w = (Response 200 msg, w')"
  from handler_success [OF this] show "int (length (ofServer (Server_ID server) (database w')))
        \<le> max (MaxBackups server) (int (length (ofServer (Server_ID server) (database w))))"
    using rotate_then_insert_bound by fastforce
next
  assume "executeBackup env server schedule w = (LogBackupCreated name, w'')"
  from firing_success [OF this] show "int (length (ofServer (Server_ID server) (database w'')))
        \<le> max (MaxBackups server) (int (length (ofServer (Server_ID server) (database w))))"
    using rotate_then_insert_bound by fastforce
qed

theorem C2_witness:
  "handlers_CreateBackup exampleEnv (Some (exampleServer\<lparr>MaxBackups := 3\<rparr>)) exampleWorld
     = (Response 200 ''Backup created successfully'',
        snd (handlers_CreateBackup exampleEnv (Some (exampleServer\<lparr>MaxBackups := 3\<rparr>)) exampleWorld)) \<and>
   executeBackup exampleEnv (exampleServer\<lparr>MaxBackups := 3\<rparr>) exampleSchedule exampleWorld
     = (LogBackupCreated ''mc_20260104_0042.tar.gz'',
        snd (executeBackup exampleEnv (exampleServer\<lparr>MaxBackups := 3\<rparr>) exampleSchedule exampleWorld)) \<and>
   int (length (ofServer 1 (database exampleWorld))) = 3 \<and>
   int (length (ofServer 1 (database (snd (handlers_CreateBackup exampleEnv (Some (exampleServer\<lparr>MaxBackups := 3\<rparr>)) exampleWorld))))) \<le> 3 \<and>
   int (length (ofServer 1 (database (snd (executeBackup exampleEnv (exampleServer\<lparr>MaxBackups := 3\<rparr>) exampleSchedule exampleWorld))))) \<le> 3"
proof -
  let ?srv = "exampleServer\<lparr>MaxBackups := 3\<rparr>"
  let ?w' = "snd (handlers_CreateBackup exampleEnv (Some ?srv) exampleWorld)"
  let ?w'' = "snd (executeBackup exampleEnv ?srv exampleSchedule exampleWorld)"
  have "fst (handlers_CreateBackup exampleEnv (Some ?srv) exampleWorld) = Response 200 ''Backup created successfully''"
    by code_simp
  then have ok: "handlers_CreateBackup exampleEnv (Some ?srv) exampleWorld = (Response 200 ''Backup created successfully'', ?w')"
    by (metis prod.collapse)
  have "fst (executeBackup exampleEnv ?srv exampleSchedule exampleWorld) = LogBackupCreated ''mc_20260104_0042.tar.gz''"
    by code_simp
  then have ok2: "executeBackup exampleEnv ?srv exampleSchedule exampleWorld = (LogBackupCreated ''mc_20260104_0042.tar.gz'', ?w'')"
    by (metis prod.collapse)
  have before: "int (length (ofServer 1 (database exampleWorld))) = 3"
    by code_simp
  have sid: "Server_ID ?srv = 1" and mx: "MaxBackups ?srv = 3"
    by (simp_all add: exampleServer_def)
  note c = C2_count_after_create_bounded_by_max_or_before
             [of exampleEnv ?srv exampleWorld "''Backup created successfully''" ?w' exampleSchedule
                 "''mc_20260104_0042.tar.gz''" ?w'']
  from c ok have "int (length (ofServer (Server_ID ?srv) (database ?w')))
          \<le> max (MaxBackups ?srv) (int (length (ofServer (Server_ID ?srv) (database exampleWorld))))"
    by blast
  then have a1: "int (length (ofServer 1 (database ?w'))) \<le> 3"
    unfolding sid mx before by simp
  from c ok2 have "int (length (ofServer (Server_ID ?srv) (database ?w'')))
          \<le> max (MaxBackups ?srv) (int (length (ofServer (Server_ID ?srv) (database exampleWorld))))"
    by blast
  then have a2: "int (length (ofServer 1 (database ?w''))) \<le> 3"
    unfolding sid mx before by simp
  show ?thesis
    by (rule conjI [OF ok conjI [OF ok2 conjI [OF before conjI [OF a1 a2]]]])
qed

text \<open>
  The claim as stated fails when the count is already above the maximum: with three
  backups and a maximum of two, a create succeeds and three records remain.
\<close>

theorem C2_counterexample:
  "fst (handlers_CreateBackup exampleEnv (Some exampleServer) exampleWorld)
     = Response 200 ''Backup created successfully'' \<and>
   MaxBackups exampleServer = 2 \<and>
   int (length (ofServer (Server_ID exampleServer) (database exampleWorld))) = 3 \<and>
   int (length (ofServer (Server_ID exampleServer)
          (database (snd (handlers_CreateBackup exampleEnv (Some exampleServer) exampleWorld))))) = 3 \<and>
   \<not> int (length (ofServer (Server_ID exampleServer)
          (database (snd (handlers_CreateBackup exampleEnv (Some exampleServer) exampleWorld)))))
       \<le> MaxBackups exampleServer"
  by code_simp

section \<open>Backup settings: theorems\<close>

text \<open>
  Claim C9. A request whose \<open>max_backups\<close> is not the integer 1, 2 or 3 never succeeds
  and leaves the server record and the file system as they were; with the server found,
  the form parsed and a backup path given, it is answered 400 with the message that the
  maximum must be between 1 and 3.
\<close>

theorem C9_max_backups_outside_1_to_3_rejected:
  assumes "Atoi maxBackupsStr \<notin> {Some 1, Some 2, Some 3}"
  shows "(\<exists>code msg. code \<noteq> 200 \<and>
            UpdateBackupSettings save found formOk backupPath maxBackupsStr fs = (Response code msg, found, fs)) \<and>
         (formOk \<and> backupPath \<noteq> [] \<longrightarrow>
            UpdateBackupSettings save (Some server) formOk backupPath maxBackupsStr fs
              = (Response 400 ''Max backups must be between 1 and 3'', Some server, fs))"
proof -
  have inv: "Atoi maxBackupsStr = None \<or> (\<exists>n. Atoi maxBackupsStr = Some n \<and> (n < 1 \<or> 3 < n))"
  proof (cases "Atoi maxBackupsStr")
    case None
    then show ?thesis by simp
  next
    case (Some n)
    with assms have "n \<noteq> 1" "n \<noteq> 2" "n \<noteq> 3" by auto
    then have "n < 1 \<or> 3 < n" by arith
    with Some show ?thesis by simp
  qed
  then show ?thesis
    by (auto simp: UpdateBackupSettings_def split: option.splits)
qed

text \<open>The other direction: a request that succeeds saved a maximum between 1 and 3.\<close>

lemma UpdateBackupSettings_success_in_range:
  assumes "UpdateBackupSettings save found formOk backupPath maxBackupsStr fs = (Response 200 msg, after, fs')"
  shows "\<exists>server n. found = Some server \<and> Atoi maxBackupsStr = Some n \<and> 1 \<le> n \<and> n \<le> 3 \<and>
           after = save backupPath n server"
  using assms
  by (auto simp: UpdateBackupSettings_def split: option.splits if_splits prod.splits)

theorem C9_witness:
  "Atoi ''4'' \<notin> {Some 1, Some 2, Some 3} \<and>
   UpdateBackupSettings (\<lambda>p n srv. Some (srv\<lparr>BackupPath := p, MaxBackups := n\<rparr>)) (Some exampleServer) True
       ''/backups'' ''4'' exampleFiles
     = (Response 400 ''Max backups must be between 1 and 3'', Some exampleServer, exampleFiles)"
proof -
  have h: "Atoi ''4'' \<notin> {Some 1, Some 2, Some 3}"
    by code_simp
  from C9_max_backups_outside_1_to_3_rejected [OF h, of _ _ True "''/backups''" _ exampleServer] h
  show ?thesis by simp
qed

section \<open>Paths: lemmas\<close>

subsection \<open>Split and joinPath\<close>

lemma Split_nonempty: "Split s sep \<noteq> []"
  by (induction s) (auto split: list.splits)

lemma Split_append_sep: "Split (a @ sep # b) sep = Split a sep @ Split b sep"
proof (induction a)
  case Nil
  show ?case using Split_nonempty [of b sep] by (cases "Split b sep") auto
next
  case (Cons c a)
  show ?case
  proof (cases "c = sep")
    case True
    with Cons show ?thesis by simp
  next
    case False
    obtain p ps where sp: "Split a sep = p # ps"
      using Split_nonempty [of a sep] by (cases "Split a sep") auto
    with Cons False show ?thesis by simp
  qed
qed

lemma Split_no_sep: "sep \<notin> set c \<Longrightarrow> Split c sep = [c]"
  by (induction c) auto

lemma Split_parts_no_sep: "c \<in> set (Split s sep) \<Longrightarrow> sep \<notin> set c"
proof (induction s arbitrary: c)
  case Nil
  then show ?case by simp
next
  case (Cons x s)
  obtain p ps where sp: "Split s sep = p # ps"
    using Split_nonempty [of s sep] by (cases "Split s sep") auto
  show ?case
  proof (cases "x = sep")
    case True
    with Cons show ?thesis by auto
  next
    case False
    with Cons.prems sp have "c = x # p \<or> c \<in> set ps" by simp
    then show ?thesis
    proof
      assume "c = x # p"
      moreover have "sep \<notin> set p" using Cons.IH [of p] sp by simp
      ultimately show ?thesis using False by simp
    next
      assume "c \<in> set ps"
      then show ?thesis using Cons.IH [of c] sp by simp
    qed
  qed
qed

lemma joinPath_Cons: "cs \<noteq> [] \<Longrightarrow> joinPath (c # cs) = c @ CHR ''/'' # joinPath cs"
  by (cases cs) auto

lemma Split_joinPath:
  "cs \<noteq> [] \<Longrightarrow> \<forall>c \<in> set cs. CHR ''/'' \<notin> set c \<Longrightarrow> Split (joinPath cs) CHR ''/'' = cs"
proof (induction cs)
  case Nil
  then show ?case by simp
next
  case (Cons c cs)
  show ?case
  proof (cases "cs = []")
    case True
    with Cons.prems show ?thesis by (simp add: Split_no_sep)
  next
    case False
    with Cons have "Split (joinPath cs) CHR ''/'' = cs" by simp
    moreover have "Split c CHR ''/'' = [c]" using Cons.prems by (simp add: Split_no_sep)
    ultimately show ?thesis using False
      by (simp add: joinPath_Cons Split_append_sep)
  qed
qed

subsection \<open>Cleaned component lists\<close>

lemma cleanStep_plain:
  "\<forall>x \<in> set acc. plain x \<Longrightarrow> CHR ''/'' \<notin> set c \<Longrightarrow> \<forall>x \<in> set (cleanStep True acc c). plain x"
  by (auto simp: cleanStep_def plain_def dest: in_set_butlastD)

lemma foldl_cleanStep_plain:
  "\<forall>x \<in> set acc. plain x \<Longrightarrow> \<forall>c \<in> set cs. CHR ''/'' \<notin> set c \<Longrightarrow>
   \<forall>x \<in> set (foldl (cleanStep True) acc cs). plain x"
proof (induction cs arbitrary: acc)
  case Nil
  then show ?case by simp
next
  case (Cons c cs)
  have "\<forall>x \<in> set (cleanStep True acc c). plain x"
    using Cons.prems by (intro cleanStep_plain) auto
  then show ?case using Cons by simp
qed

lemma resolve_plain: "\<forall>x \<in> set (resolve name). plain x"
  unfolding resolve_def cleanComps_def
  by (rule foldl_cleanStep_plain) (auto dest: Split_parts_no_sep)

lemma foldl_cleanStep_plain_id:
  "\<forall>c \<in> set cs. plain c \<Longrightarrow> foldl (cleanStep True) acc cs = acc @ cs"
  by (induction cs arbitrary: acc) (auto simp: cleanStep_def plain_def)

lemma cleanStep_empty: "cleanStep r acc [] = acc"
  by (simp add: cleanStep_def)

lemma resolve_rooted_join:
  assumes "\<forall>c \<in> set cs. plain c"
  shows "resolve (CHR ''/'' # joinPath cs) = cs"
proof (cases "cs = []")
  case True
  then show ?thesis by (simp add: resolve_def cleanComps_def cleanStep_def)
next
  case False
  have "Split (CHR ''/'' # joinPath cs) CHR ''/'' = [] # Split (joinPath cs) CHR ''/''" by simp
  also have "Split (joinPath cs) CHR ''/'' = cs"
    using False assms by (intro Split_joinPath) (auto simp: plain_def)
  finally show ?thesis
    using assms by (simp add: resolve_def cleanComps_def cleanStep_empty foldl_cleanStep_plain_id)
qed

lemma Clean_rooted: "p \<noteq> [] \<Longrightarrow> hd p = CHR ''/'' \<Longrightarrow> Clean p = CHR ''/'' # joinPath (resolve p)"
  by (simp add: Clean_def resolve_def)

lemma HasPrefix_iff: "HasPrefix s p \<longleftrightarrow> (\<exists>r. s = p @ r)"
  unfolding HasPrefix_def
  by (metis append_eq_conv_conj append_take_drop_id)

lemma joinPath_prefix_strict:
  assumes T: "\<forall>c \<in> set T. plain c" and D: "\<forall>c \<in> set D. plain c"
    and eq: "joinPath T = joinPath D @ CHR ''/'' # r"
  shows "strict_prefix D T"
proof (cases "D = []")
  case True
  with eq have "T \<noteq> []" by auto
  with True show ?thesis by (simp add: strict_prefix_def)
next
  case False
  from eq have Tne: "T \<noteq> []" by auto
  have "Split (joinPath T) CHR ''/'' = T"
    using Tne T by (intro Split_joinPath) (auto simp: plain_def)
  moreover have "Split (joinPath D) CHR ''/'' = D"
    using False D by (intro Split_joinPath) (auto simp: plain_def)
  ultimately have "T = D @ Split r CHR ''/''"
    using eq Split_append_sep [of "joinPath D" "CHR ''/''" r] by simp
  then show ?thesis using Split_nonempty [of r "CHR ''/''"] by (auto simp: strict_prefix_def)
qed

text \<open>The file manager's path check accepts only targets strictly below the destination.\<close>

lemma checked_target_inside:
  assumes abs: "destPath \<noteq> []" "hd destPath = CHR ''/''"
    and chk: "HasPrefix (Join destPath name) (Clean destPath @ ''/'')"
  shows "strict_prefix (resolve destPath) (resolve (Join destPath name))"
proof -
  let ?raw = "destPath @ ''/'' @ name"
  have raw: "?raw \<noteq> []" "hd ?raw = CHR ''/''" using abs by auto
  have j: "Join destPath name = CHR ''/'' # joinPath (resolve ?raw)"
    using abs Clean_rooted [OF raw] by (simp add: Join_def)
  have d: "Clean destPath = CHR ''/'' # joinPath (resolve destPath)"
    using abs by (rule Clean_rooted)
  from chk obtain r where "joinPath (resolve ?raw) = joinPath (resolve destPath) @ CHR ''/'' # r"
    unfolding HasPrefix_iff j d by auto
  then have "strict_prefix (resolve destPath) (resolve ?raw)"
    using resolve_plain resolve_plain by (intro joinPath_prefix_strict) auto
  moreover have "resolve (Join destPath name) = resolve ?raw"
    unfolding j using resolve_plain by (rule resolve_rooted_join)
  ultimately show ?thesis by simp
qed

section \<open>Extraction: theorems\<close>

lemma extractTarLoop_skips:
  "extractTarLoop destPath hs fin fs
     = extractTarLoop destPath (filter (\<lambda>h. passesCheck destPath (HeaderName h)) hs) fin fs"
proof (induction hs arbitrary: fs)
  case Nil
  show ?case by simp
next
  case (Cons h hs)
  show ?case
  proof (cases "passesCheck destPath (HeaderName h)")
    case False
    then show ?thesis using Cons [of fs] by (simp add: passesCheck_def)
  next
    case True
    then show ?thesis using Cons
      by (simp add: passesCheck_def Let_def split: typeflag.splits sum.splits)
  qed
qed

lemma extractZipLoop_skips:
  "extractZipLoop destPath zs fs
     = extractZipLoop destPath (filter (\<lambda>z. passesCheck destPath (ZipName z)) zs) fs"
proof (induction zs arbitrary: fs)
  case Nil
  show ?case by simp
next
  case (Cons z zs)
  show ?case
  proof (cases "passesCheck destPath (ZipName z)")
    case False
    then show ?thesis using Cons [of fs] by (simp add: passesCheck_def)
  next
    case True
    then show ?thesis using Cons
      by (simp add: passesCheck_def Let_def split: sum.splits)
  qed
qed

lemma extractBackupLoop_aborts:
  "\<exists>h \<in> set hs. \<not> HasPrefix (Clean (Join destPath (HeaderName h))) (Clean destPath) \<Longrightarrow>
   fst (extractBackupLoop destPath hs fin fs) \<noteq> None"
proof (induction hs arbitrary: fs)
  case Nil
  then show ?case by simp
next
  case (Cons h hs)
  show ?case
  proof (cases "HasPrefix (Clean (Join destPath (HeaderName h))) (Clean destPath)")
    case False
    then show ?thesis by simp
  next
    case True
    with Cons.prems have "\<exists>h \<in> set hs. \<not> HasPrefix (Clean (Join destPath (HeaderName h))) (Clean destPath)"
      by auto
    then have "\<And>fs. fst (extractBackupLoop destPath hs fin fs) \<noteq> None" by (rule Cons.IH)
    then show ?thesis using True
      by (simp add: Let_def split: typeflag.splits sum.splits)
  qed
qed

lemma extractTarGz_skips:
  "extractTarGz c archivePath destPath fs = extractTarGz (withoutRejected destPath c) archivePath destPath fs"
proof (cases "os_ReadFile fs archivePath")
  case (Inl e)
  then show ?thesis by (simp add: extractTarGz_def)
next
  case (Inr bytes)
  show ?thesis
  proof (cases "readTarGz c bytes")
    case None
    with Inr show ?thesis by (simp add: extractTarGz_def withoutRejected_def)
  next
    case (Some st)
    obtain hs fin where st: "st = (hs, fin)" by (cases st)
    have "filter (\<lambda>h. passesCheck destPath (HeaderName h)) (filter (\<lambda>h. passesCheck destPath (HeaderName h)) hs)
            = filter (\<lambda>h. passesCheck destPath (HeaderName h)) hs"
      by simp
    then have "extractTarLoop destPath hs fin fs
            = extractTarLoop destPath (filter (\<lambda>h. passesCheck destPath (HeaderName h)) hs) fin fs"
      by (rule_tac extractTarLoop_skips)
    with Inr Some st show ?thesis by (simp add: extractTarGz_def withoutRejected_def)
  qed
qed

lemma extractTar_skips:
  "extractTar c archivePath destPath fs = extractTar (withoutRejected destPath c) archivePath destPath fs"
proof (cases "os_ReadFile fs archivePath")
  case (Inl e)
  then show ?thesis by (simp add: extractTar_def)
next
  case (Inr bytes)
  obtain hs fin where st: "readTar c bytes = (hs, fin)" by (cases "readTar c bytes")
  have "extractTarLoop destPath hs fin fs
          = extractTarLoop destPath (filter (\<lambda>h. passesCheck destPath (HeaderName h)) hs) fin fs"
    by (rule extractTarLoop_skips)
  with Inr st show ?thesis by (simp add: extractTar_def withoutRejected_def)
qed

lemma extractZip_skips:
  "extractZip c archivePath destPath fs = extractZip (withoutRejected destPath c) archivePath destPath fs"
proof (cases "os_ReadFile fs archivePath")
  case (Inl e)
  then show ?thesis by (simp add: extractZip_def)
next
  case (Inr bytes)
  show ?thesis
  proof (cases "readZip c bytes")
    case None
    with Inr show ?thesis by (simp add: extractZip_def withoutRejected_def)
  next
    case (Some zs)
    have "extractZipLoop destPath zs fs
            = extractZipLoop destPath (filter (\<lambda>z. passesCheck destPath (ZipName z)) zs) fs"
      by (rule extractZipLoop_skips)
    with Inr Some show ?thesis by (simp add: extractZip_def withoutRejected_def)
  qed
qed

lemma extractTarGzBackup_aborts:
  assumes "os_Stat fs backupFilePath = Inr (File bytes m)"
    and "readTarGz c bytes = Some (hs, fin)"
    and "\<exists>h \<in> set hs. \<not> HasPrefix (Clean (Join destPath (HeaderName h))) (Clean destPath)"
  shows "fst (extractTarGzBackup c backupFilePath destPath fs) \<noteq> None"
  using assms extractBackupLoop_aborts [of hs destPath fin fs]
  by (simp add: extractTarGzBackup_def)

text \<open>
  Claim C6, as amended. \<open>extractTarGz\<close>, \<open>extractTar\<close> and \<open>extractZip\<close> skip an entry their
  path check rejects and go on: the outcome is that of the same archive without the
  rejected entries. For an absolute destination the check passes only entries whose
  resolved path is strictly inside the destination, so every escaping entry is among
  the rejected. \<open>extractTarGzBackup\<close>, the restore path's extractor, fails the whole
  operation when its own check rejects an entry of the archive.
\<close>

theorem C6_skip_in_file_manager_abort_in_restore:
  "extractTarGz c archivePath destPath fs = extractTarGz (withoutRejected destPath c) archivePath destPath fs \<and>
   extractTar c archivePath destPath fs = extractTar (withoutRejected destPath c) archivePath destPath fs \<and>
   extractZip c archivePath destPath fs = extractZip (withoutRejected destPath c) archivePath destPath fs \<and>
   (destPath \<noteq> [] \<and> hd destPath = CHR ''/'' \<and> passesCheck destPath name \<longrightarrow>
      strict_prefix (resolve destPath) (resolve (Join destPath name))) \<and>
   (os_Stat fs backupFilePath = Inr (File bytes m) \<and> readTarGz c bytes = Some (hs, fin) \<and>
    (\<exists>h \<in> set hs. \<not> HasPrefix (Clean (Join destPath (HeaderName h))) (Clean destPath)) \<longrightarrow>
      fst (extractTarGzBackup c backupFilePath destPath fs) \<noteq> None)"
proof (intro conjI impI)
  show "extractTarGz c archivePath destPath fs = extractTarGz (withoutRejected destPath c) archivePath destPath fs"
    by (rule extractTarGz_skips)
  show "extractTar c archivePath destPath fs = extractTar (withoutRejected destPath c) archivePath destPath fs"
    by (rule extractTar_skips)
  show "extractZip c archivePath destPath fs = extractZip (withoutRejected destPath c) archivePath destPath fs"
    by (rule extractZip_skips)
next
  assume "destPath \<noteq> [] \<and> hd destPath = CHR ''/'' \<and> passesCheck destPath name"
  then show "strict_prefix (resolve destPath) (resolve (Join destPath name))"
    unfolding passesCheck_def using checked_target_inside by blast
next
  assume "os_Stat fs backupFilePath = Inr (File bytes m) \<and> readTarGz c bytes = Some (hs, fin) \<and>
    (\<exists>h \<in> set hs. \<not> HasPrefix (Clean (Join destPath (HeaderName h))) (Clean destPath))"
  then show "fst (extractTarGzBackup c backupFilePath destPath fs) \<noteq> None"
    using extractTarGzBackup_aborts by blast
qed

theorem C6_witness:
  "''/srv/mc'' \<noteq> [] \<and> hd ''/srv/mc'' = CHR ''/'' \<and> passesCheck ''/srv/mc'' ''ok.txt'' \<and>
   strict_prefix (resolve ''/srv/mc'') (resolve (Join ''/srv/mc'' ''ok.txt'')) \<and>
   os_Stat craftedFiles ''/backups/escaping.tar.gz'' = Inr (File ''escaping'' 420) \<and>
   readTarGz craftedCodec ''escaping'' = Some ([goodEntry, escapeEntry], EndOfArchive) \<and>
   \<not> HasPrefix (Clean (Join ''/srv/mc'' (HeaderName escapeEntry))) (Clean ''/srv/mc'') \<and>
   fst (extractTarGzBackup craftedCodec ''/backups/escaping.tar.gz'' ''/srv/mc'' craftedFiles) \<noteq> None \<and>
   extractTarGzBackup craftedCodec ''/backups/escaping.tar.gz'' ''/srv/mc'' craftedFiles
     = (Some (InvalidFilePathInArchive ''../../escape.txt''),
        craftedFiles @ [([''srv'', ''mc'', ''ok.txt''], File ''fine'' 420)])"
proof -
  have a: "''/srv/mc'' \<noteq> [] \<and> hd ''/srv/mc'' = CHR ''/'' \<and> passesCheck ''/srv/mc'' ''ok.txt''"
    by code_simp
  have b: "os_Stat craftedFiles ''/backups/escaping.tar.gz'' = Inr (File ''escaping'' 420)"
    by code_simp
  have r: "readTarGz craftedCodec ''escaping'' = Some ([goodEntry, escapeEntry], EndOfArchive)"
    by code_simp
  have n: "\<not> HasPrefix (Clean (Join ''/srv/mc'' (HeaderName escapeEntry))) (Clean ''/srv/mc'')"
    by code_simp
  then have ex: "\<exists>h \<in> set [goodEntry, escapeEntry].
                   \<not> HasPrefix (Clean (Join ''/srv/mc'' (HeaderName h))) (Clean ''/srv/mc'')"
    by simp
  have e: "extractTarGzBackup craftedCodec ''/backups/escaping.tar.gz'' ''/srv/mc'' craftedFiles
     = (Some (InvalidFilePathInArchive ''../../escape.txt''),
        craftedFiles @ [([''srv'', ''mc'', ''ok.txt''], File ''fine'' 420)])"
    by code_simp
  note c = C6_skip_in_file_manager_abort_in_restore
             [of craftedCodec _ "''/srv/mc''" craftedFiles "''ok.txt''" "''/backups/escaping.tar.gz''"
                 "''escaping''" 420 "[goodEntry, escapeEntry]" EndOfArchive]
  from c a have "strict_prefix (resolve ''/srv/mc'') (resolve (Join ''/srv/mc'' ''ok.txt''))"
    by blast
  moreover from c b r ex
  have "fst (extractTarGzBackup craftedCodec ''/backups/escaping.tar.gz'' ''/srv/mc'' craftedFiles) \<noteq> None"
    by blast
  ultimately show ?thesis using a b r n e by blast
qed

text \<open>
  The claim as stated fails for tar.gz archives extracted by the file manager: the
  escaping entry is skipped, the entry after it is extracted, and no error is returned.
\<close>

theorem C6_counterexample:
  "readTarGz craftedCodec ''crafted'' = Some ([evilEntry, goodEntry], EndOfArchive) \<and>
   \<not> prefix (resolve ''/srv/mc'') (resolve (Join ''/srv/mc'' (HeaderName evilEntry))) \<and>
   extractTarGz craftedCodec ''/backups/crafted.tar.gz'' ''/srv/mc'' craftedFiles
     = (None, craftedFiles @ [([''srv'', ''mc'', ''ok.txt''], File ''fine'' 420)])"
  by code_simp

section \<open>File manager extraction stays inside the destination\<close>

lemma map_of_put: "map_of (put p n fs) q = (if q = p then Some n else map_of fs q)"
  by (induction fs) auto

lemma lookup_put: "lookup (put p n fs) q = (if q = p \<and> p \<noteq> [] then Some n else lookup fs q)"
  by (auto simp: lookup_def map_of_put)

lemma changedOnlyBelow_refl: "changedOnlyBelow D fs fs"
  by (simp add: changedOnlyBelow_def)

lemma changedOnlyBelow_trans:
  "changedOnlyBelow D fs fs1 \<Longrightarrow> changedOnlyBelow D fs1 fs2 \<Longrightarrow> changedOnlyBelow D fs fs2"
  by (simp add: changedOnlyBelow_def)

lemma dirsExist_kept:
  assumes "dirsExist D fs" and "changedOnlyBelow D fs fs'"
  shows "dirsExist D fs'"
  unfolding dirsExist_def
proof (intro allI impI)
  fix q assume q: "prefix q D"
  then have "\<not> strict_prefix D q"
    by (auto simp: strict_prefix_def dest: prefix_order.antisym)
  with assms(2) have "lookup fs' q = lookup fs q" by (simp add: changedOnlyBelow_def)
  with assms(1) q show "\<exists>m. lookup fs' q = Some (Directory m)" by (simp add: dirsExist_def)
qed

lemma changedOnlyBelow_put:
  "strict_prefix D p \<Longrightarrow> changedOnlyBelow D fs (put p n fs)"
  by (auto simp: changedOnlyBelow_def lookup_put)

lemma mkdirFrom_changes:
  "mkdirFrom perm cur cs fs = Inr fs' \<Longrightarrow> lookup fs' q \<noteq> lookup fs q \<Longrightarrow>
   lookup fs q = None \<and> (\<exists>k. 0 < k \<and> k \<le> length cs \<and> q = cur @ take k cs)"
proof (induction cs arbitrary: cur fs)
  case Nil
  then show ?case by simp
next
  case (Cons c cs)
  show ?case
  proof (cases "lookup fs (cur @ [c])")
    case None
    let ?fs1 = "put (cur @ [c]) (Directory perm) fs"
    from Cons.prems(1) None have r: "mkdirFrom perm (cur @ [c]) cs ?fs1 = Inr fs'" by simp
    show ?thesis
    proof (cases "lookup fs' q = lookup ?fs1 q")
      case True
      with Cons.prems(2) have "lookup ?fs1 q \<noteq> lookup fs q" by simp
      then have "q = cur @ [c]" by (auto simp: lookup_put split: if_splits)
      with None show ?thesis by (intro conjI exI [of _ 1]) auto
    next
      case False
      from Cons.IH [OF r False] obtain k where
        k: "lookup ?fs1 q = None" "0 < k" "k \<le> length cs" "q = (cur @ [c]) @ take k cs"
        by blast
      then have "q \<noteq> cur @ [c]" by auto
      with k(1) have "lookup fs q = None" by (simp add: lookup_put split: if_splits)
      moreover have "q = cur @ take (Suc k) (c # cs)" using k(4) by simp
      ultimately show ?thesis using k(3) by (intro conjI exI [of _ "Suc k"]) auto
    qed
  next
    case (Some n)
    show ?thesis
    proof (cases n)
      case (File b m)
      with Some Cons.prems(1) show ?thesis by simp
    next
      case (Directory m)
      with Some Cons.prems(1) have r: "mkdirFrom perm (cur @ [c]) cs fs = Inr fs'" by simp
      from Cons.IH [OF r Cons.prems(2)] obtain k where
        k: "lookup fs q = None" "0 < k" "k \<le> length cs" "q = (cur @ [c]) @ take k cs"
        by blast
      have "q = cur @ take (Suc k) (c # cs)" using k(4) by simp
      with k show ?thesis by (intro conjI exI [of _ "Suc k"]) auto
    qed
  qed
qed

lemma os_MkdirAll_below:
  assumes d: "dirsExist D fs" and p: "prefix D (resolve name)"
    and ok: "os_MkdirAll name perm fs = Inr fs'"
  shows "changedOnlyBelow D fs fs'"
  unfolding changedOnlyBelow_def
proof (intro allI impI)
  fix q assume nb: "\<not> strict_prefix D q"
  show "lookup fs' q = lookup fs q"
  proof (rule ccontr)
    assume ne: "lookup fs' q \<noteq> lookup fs q"
    from ok have m: "mkdirFrom perm [] (resolve name) fs = Inr fs'"
      by (auto simp: os_MkdirAll_def split: if_splits)
    from mkdirFrom_changes [OF m ne] obtain k where
      k: "lookup fs q = None" "q = take k (resolve name)" by auto
    then have qp: "prefix q (resolve name)" by (simp add: take_is_prefix)
    from d k(1) have "\<not> prefix q D" by (auto simp: dirsExist_def)
    moreover from qp p have "prefix q D \<or> prefix D q"
      by (metis prefix_same_cases)
    ultimately have "prefix D q" "q \<noteq> D" by auto
    with nb show False by (simp add: strict_prefix_def)
  qed
qed

lemma os_Create_below:
  "strict_prefix D (resolve name) \<Longrightarrow> os_Create name fs = Inr fs' \<Longrightarrow> changedOnlyBelow D fs fs'"
  by (auto simp: os_Create_def Let_def changedOnlyBelow_put split: if_splits sum.splits node.splits option.splits)

lemma writeFile_below:
  "strict_prefix D (resolve name) \<Longrightarrow> changedOnlyBelow D fs (writeFile name bytes fs)"
  by (auto simp: writeFile_def changedOnlyBelow_put changedOnlyBelow_refl split: option.splits node.splits)

lemma os_Chmod_below:
  "strict_prefix D (resolve name) \<Longrightarrow> os_Chmod name m fs = Inr fs' \<Longrightarrow> changedOnlyBelow D fs fs'"
  by (auto simp: os_Chmod_def changedOnlyBelow_put changedOnlyBelow_refl split: if_splits sum.splits node.splits)

lemma joinPath_snoc: "cs \<noteq> [] \<Longrightarrow> joinPath (cs @ [c]) = joinPath cs @ CHR ''/'' # c"
  by (induction cs rule: joinPath.induct) auto

lemma Dir_rooted_join:
  assumes pl: "\<forall>c \<in> set T. plain c"
  shows "resolve (Dir (CHR ''/'' # joinPath T)) = butlast T"
proof (cases T rule: rev_cases)
  case Nil
  have "resolve (Dir ''/'') = []" by code_simp
  with Nil show ?thesis by simp
next
  case (snoc T' t)
  have t: "CHR ''/'' \<notin> set t" and pl': "\<forall>c \<in> set T'. plain c"
    using pl snoc by (auto simp: plain_def)
  have cut: "rev (dropWhile (\<lambda>c. c \<noteq> CHR ''/'') (rev (x @ CHR ''/'' # t))) = x @ ''/''" for x
    using t by (auto simp: dropWhile_append3)
  show ?thesis
  proof (cases "T' = []")
    case True
    have "Dir (CHR ''/'' # t) = Clean ''/''"
      using cut [of "[]"] by (simp add: Dir_def)
    also have "\<dots> = ''/''" by code_simp
    finally show ?thesis using True snoc by (simp add: resolve_def cleanComps_def cleanStep_def)
  next
    case False
    let ?x = "CHR ''/'' # joinPath T'"
    have "CHR ''/'' # joinPath T = ?x @ CHR ''/'' # t"
      using False snoc by (simp add: joinPath_snoc)
    then have "Dir (CHR ''/'' # joinPath T) = Clean (?x @ ''/'')"
      using cut [of ?x] by (simp add: Dir_def)
    also have "\<dots> = CHR ''/'' # joinPath (resolve (?x @ ''/''))"
      by (rule Clean_rooted) auto
    finally have d: "Dir (CHR ''/'' # joinPath T) = CHR ''/'' # joinPath (resolve (?x @ ''/''))" .
    have sp: "Split (?x @ ''/'') CHR ''/'' = Split ?x CHR ''/'' @ [[]]"
      using Split_append_sep [of ?x "CHR ''/''" "[]"] by simp
    have "Split ?x CHR ''/'' = [] # T'"
      using Split_joinPath [of T'] False pl' by (auto simp: plain_def)
    with sp have "resolve (?x @ ''/'') = T'"
      using pl' by (simp add: resolve_def cleanComps_def cleanStep_empty foldl_cleanStep_plain_id)
    with d have "resolve (Dir (CHR ''/'' # joinPath T)) = resolve (CHR ''/'' # joinPath T')" by simp
    also have "\<dots> = T'" using pl' by (rule resolve_rooted_join)
    finally show ?thesis using snoc by simp
  qed
qed


lemma Join_rooted_form:
  assumes "destPath \<noteq> []" "hd destPath = CHR ''/''"
  shows "Join destPath name = CHR ''/'' # joinPath (resolve (Join destPath name))"
proof -
  let ?raw = "destPath @ ''/'' @ name"
  have raw: "?raw \<noteq> []" "hd ?raw = CHR ''/''" using assms by auto
  have j: "Join destPath name = CHR ''/'' # joinPath (resolve ?raw)"
    using assms Clean_rooted [OF raw] by (simp add: Join_def)
  have "resolve (Join destPath name) = resolve ?raw"
    unfolding j using resolve_plain by (rule resolve_rooted_join)
  with j show ?thesis by simp
qed

lemma target_facts:
  assumes abs: "destPath \<noteq> []" "hd destPath = CHR ''/''"
    and chk: "HasPrefix (Join destPath name) (Clean destPath @ ''/'')"
  shows "strict_prefix (resolve destPath) (resolve (Join destPath name))"
    and "prefix (resolve destPath) (resolve (Join destPath name))"
    and "prefix (resolve destPath) (resolve (Dir (Join destPath name)))"
proof -
  let ?T = "resolve (Join destPath name)"
  show sp: "strict_prefix (resolve destPath) ?T"
    using abs chk by (rule checked_target_inside)
  then show "prefix (resolve destPath) ?T" by (simp add: strict_prefix_def)
  have "resolve (Dir (Join destPath name)) = resolve (Dir (CHR ''/'' # joinPath ?T))"
    using Join_rooted_form [OF abs, of name] by simp
  also have "\<dots> = butlast ?T"
    using resolve_plain by (rule Dir_rooted_join)
  finally have "resolve (Dir (Join destPath name)) = butlast ?T" .
  moreover from sp obtain z zs where "?T = resolve destPath @ z # zs"
    by (auto simp: strict_prefix_def prefix_def) (metis list.exhaust append_Nil2)
  then have "prefix (resolve destPath) (butlast ?T)"
    by (simp add: butlast_append)
  ultimately show "prefix (resolve destPath) (resolve (Dir (Join destPath name)))" by simp
qed

lemma extractTarLoop_below:
  assumes abs: "destPath \<noteq> []" "hd destPath = CHR ''/''"
  shows "dirsExist (resolve destPath) fs \<Longrightarrow>
         changedOnlyBelow (resolve destPath) fs (snd (extractTarLoop destPath hs fin fs))"
proof (induction hs arbitrary: fs)
  case Nil
  show ?case by (simp add: changedOnlyBelow_refl)
next
  case (Cons h hs)
  let ?D = "resolve destPath"
  let ?t = "Join destPath (HeaderName h)"
  have next_ok: "changedOnlyBelow ?D fs (snd (extractTarLoop destPath hs fin fs1))"
    if "changedOnlyBelow ?D fs fs1" for fs1
    using that Cons.IH [of fs1] dirsExist_kept [OF Cons.prems that] changedOnlyBelow_trans by blast
  show ?case
  proof (cases "HasPrefix ?t (Clean destPath @ ''/'')")
    case False
    then show ?thesis using next_ok [OF changedOnlyBelow_refl] by simp
  next
    case True
    note tf = target_facts [OF abs True]
    show ?thesis
    proof (cases "HeaderTypeflag h")
      case TypeOther
      with True show ?thesis using next_ok [OF changedOnlyBelow_refl] by simp
    next
      case TypeDir
      show ?thesis
      proof (cases "os_MkdirAll ?t 493 fs")
        case (Inl e)
        with True TypeDir show ?thesis by (simp add: changedOnlyBelow_refl)
      next
        case (Inr fs1)
        from os_MkdirAll_below [OF Cons.prems tf(2) Inr] have "changedOnlyBelow ?D fs fs1" .
        from next_ok [OF this] True TypeDir Inr show ?thesis by simp
      qed
    next
      case TypeReg
      show ?thesis
      proof (cases "os_MkdirAll (Dir ?t) 493 fs")
        case (Inl e)
        with True TypeReg show ?thesis by (simp add: changedOnlyBelow_refl)
      next
        case (Inr fs1)
        from os_MkdirAll_below [OF Cons.prems tf(3) Inr] have c1: "changedOnlyBelow ?D fs fs1" .
        show ?thesis
        proof (cases "os_Create ?t fs1")
          case (Inl e)
          with True TypeReg Inr c1 show ?thesis by simp
        next
          case fs2: (Inr fs2)
          let ?fs3 = "writeFile ?t (Data h) fs2"
          have c3: "changedOnlyBelow ?D fs ?fs3"
            using c1 os_Create_below [OF tf(1) fs2] writeFile_below [OF tf(1), where bytes = "Data h" and fs = fs2]
                  changedOnlyBelow_trans by blast
          show ?thesis
          proof (cases "DataIntact h")
            case False
            with True TypeReg Inr fs2 c3 show ?thesis by (simp add: Let_def)
          next
            case intact: True
            show ?thesis
            proof (cases "os_Chmod ?t (HeaderMode h) ?fs3")
              case (Inl e)
              with True TypeReg Inr fs2 intact c3 show ?thesis by (simp add: Let_def)
            next
              case fs4: (Inr fs4)
              have "changedOnlyBelow ?D fs fs4"
                using c3 os_Chmod_below [OF tf(1) fs4] changedOnlyBelow_trans by blast
              from next_ok [OF this] True TypeReg Inr fs2 intact fs4 show ?thesis by (simp add: Let_def)
            qed
          qed
        qed
      qed
    qed
  qed
qed

lemma extractZipLoop_below:
  assumes abs: "destPath \<noteq> []" "hd destPath = CHR ''/''"
  shows "dirsExist (resolve destPath) fs \<Longrightarrow>
         changedOnlyBelow (resolve destPath) fs (snd (extractZipLoop destPath zs fs))"
proof (induction zs arbitrary: fs)
  case Nil
  show ?case by (simp add: changedOnlyBelow_refl)
next
  case (Cons z zs)
  let ?D = "resolve destPath"
  let ?t = "Join destPath (ZipName z)"
  have next_ok: "changedOnlyBelow ?D fs (snd (extractZipLoop destPath zs fs1))"
    if "changedOnlyBelow ?D fs fs1" for fs1
    using that Cons.IH [of fs1] dirsExist_kept [OF Cons.prems that] changedOnlyBelow_trans by blast
  show ?case
  proof (cases "HasPrefix ?t (Clean destPath @ ''/'')")
    case False
    then show ?thesis using next_ok [OF changedOnlyBelow_refl] by simp
  next
    case True
    note tf = target_facts [OF abs True]
    show ?thesis
    proof (cases "ZipIsDir z")
      case isdir: True
      show ?thesis
      proof (cases "os_MkdirAll ?t 493 fs")
        case (Inl e)
        with True isdir show ?thesis by (simp add: changedOnlyBelow_refl)
      next
        case (Inr fs1)
        from os_MkdirAll_below [OF Cons.prems tf(2) Inr] have "changedOnlyBelow ?D fs fs1" .
        from next_ok [OF this] True isdir Inr show ?thesis by simp
      qed
    next
      case nodir: False
      show ?thesis
      proof (cases "os_MkdirAll (Dir ?t) 493 fs")
        case (Inl e)
        with True nodir show ?thesis by (simp add: changedOnlyBelow_refl)
      next
        case (Inr fs1)
        from os_MkdirAll_below [OF Cons.prems tf(3) Inr] have c1: "changedOnlyBelow ?D fs fs1" .
        show ?thesis
        proof (cases "ZipOpens z")
          case False
          with True nodir Inr c1 show ?thesis by simp
        next
          case opens: True
          show ?thesis
          proof (cases "os_Create ?t fs1")
            case (Inl e)
            with True nodir Inr opens c1 show ?thesis by simp
          next
            case fs2: (Inr fs2)
            let ?fs3 = "writeFile ?t (ZipData z) fs2"
            have c3: "changedOnlyBelow ?D fs ?fs3"
              using c1 os_Create_below [OF tf(1) fs2] writeFile_below [OF tf(1), where bytes = "ZipData z" and fs = fs2]
                    changedOnlyBelow_trans by blast
            show ?thesis
            proof (cases "ZipDataIntact z")
              case False
              with True nodir Inr opens fs2 c3 show ?thesis by (simp add: Let_def)
            next
              case intact: True
              show ?thesis
              proof (cases "os_Chmod ?t (ZipMode z) ?fs3")
                case (Inl e)
                with True nodir Inr opens fs2 intact c3 show ?thesis by (simp add: Let_def)
              next
                case fs4: (Inr fs4)
                have "changedOnlyBelow ?D fs fs4"
                  using c3 os_Chmod_below [OF tf(1) fs4] changedOnlyBelow_trans by blast
                from next_ok [OF this] True nodir Inr opens fs2 intact fs4 show ?thesis
                  by (simp add: Let_def)
              qed
            qed
          qed
        qed
      qed
    qed
  qed
qed

text \<open>
  The file manager's extractors keep to the destination: with an absolute destination
  that exists, whatever the archive holds and however the extraction ends, the file
  system afterwards differs from the one before only at paths strictly below the
  destination.
\<close>

lemma file_manager_extraction_stays_inside:
  assumes "destPath \<noteq> []" "hd destPath = CHR ''/''" "dirsExist (resolve destPath) fs"
  shows "changedOnlyBelow (resolve destPath) fs (snd (extractTarGz c archivePath destPath fs))"
    and "changedOnlyBelow (resolve destPath) fs (snd (extractTar c archivePath destPath fs))"
    and "changedOnlyBelow (resolve destPath) fs (snd (extractZip c archivePath destPath fs))"
  using extractTarLoop_below [OF assms] extractZipLoop_below [OF assms]
  by (auto simp: extractTarGz_def extractTar_def extractZip_def changedOnlyBelow_refl
           split: sum.splits option.splits prod.splits)

section \<open>Restore extraction: theorems\<close>

text \<open>
  Claim C1 (a defect of the code). \<open>extractTarGzBackup\<close> compares the cleaned target
  with the cleaned destination as strings, without a separator after the destination.
  Restoring the crafted archive into \<open>/srv/mc\<close> succeeds and writes the entry named
  \<open>../mc2/evil.txt\<close> to \<open>/srv/mc2/evil.txt\<close>, outside the destination; the entry named
  \<open>../../escape.txt\<close> extracted into \<open>/e\<close> lands in \<open>/escape.txt\<close>. The file manager's
  \<open>extractTarGz\<close> skips the same entry.
\<close>

theorem C1_restore_extractor_writes_outside_destination:
  "os_Stat craftedFiles ''/srv/mc2/evil.txt'' = Inl ENOENT \<and>
   fst (RestoreBackupFromArchive craftedCodec ''/backups/crafted.tar.gz'' ''/srv/mc'' craftedFiles) = None \<and>
   os_Stat (snd (RestoreBackupFromArchive craftedCodec ''/backups/crafted.tar.gz'' ''/srv/mc'' craftedFiles))
       ''/srv/mc2/evil.txt'' = Inr (File ''pwned'' 420) \<and>
   \<not> prefix (resolve ''/srv/mc'') (resolve ''/srv/mc2/evil.txt'') \<and>
   extractBackupLoop ''/e'' [escapeEntry] EndOfArchive [([''e''], Directory 493)]
     = (None, [([''e''], Directory 493), ([''escape.txt''], File ''pwned'' 420)]) \<and>
   os_Stat (snd (extractTarGz craftedCodec ''/backups/crafted.tar.gz'' ''/srv/mc'' craftedFiles))
       ''/srv/mc2/evil.txt'' = Inl ENOENT"
  by code_simp

section \<open>Restore: theorems\<close>

text \<open>When \<open>os.Stat\<close> reports that a path is missing, nothing is touched.\<close>

lemma Restore_missing_backup_untouched:
  "os_Stat fs backupFilePath = Inl ENOENT \<Longrightarrow>
   RestoreBackupFromArchive c backupFilePath serverFolderPath fs = (Some BackupFileNotFound, fs)"
  by (simp add: RestoreBackupFromArchive_def IsNotExist_def)

lemma Restore_missing_folder_untouched:
  "os_Stat fs backupFilePath \<noteq> Inl ENOENT \<Longrightarrow> os_Stat fs serverFolderPath = Inl ENOENT \<Longrightarrow>
   RestoreBackupFromArchive c backupFilePath serverFolderPath fs = (Some ServerFolderNotFound, fs)"
  by (simp add: RestoreBackupFromArchive_def IsNotExist_def)

text \<open>
  Claim C4 (a defect of the code). The first check tests \<open>os.IsNotExist\<close>, which holds for
  \<open>ENOENT\<close> only. A backup path below a regular file does not exist either, but
  \<open>os.Stat\<close> reports \<open>ENOTDIR\<close> for it: the check passes, the server folder is cleared,
  and only then opening the backup fails. The sentinel \<open>world.dat\<close> is gone and the
  error is not the not-found error.
\<close>

theorem C4_restore_clears_folder_when_backup_path_is_below_a_file:
  "os_Stat brokenFiles ''/backups/mc.tar.gz'' = Inl ENOTDIR \<and>
   os_Stat brokenFiles ''/srv/mc/world.dat'' = Inr (File ''data'' 420) \<and>
   RestoreBackupFromArchive craftedCodec ''/backups/mc.tar.gz'' ''/srv/mc'' brokenFiles
     = (Some (FailedToExtractBackup (FailedToOpenBackupFile ENOTDIR)),
        [([''backups''], File ''not a directory'' 420), ([''srv''], Directory 493), ([''srv'', ''mc''], Directory 493)]) \<and>
   os_Stat (snd (RestoreBackupFromArchive craftedCodec ''/backups/mc.tar.gz'' ''/srv/mc'' brokenFiles))
       ''/srv/mc/world.dat'' = Inl ENOENT"
  by code_simp

section \<open>Backup creation and its file: theorems\<close>

text \<open>
  Claim C3 (a defect of the code). With the insert failing, the scheduled firing
  \<open>executeBackup\<close> logs the error and returns: the archive it wrote stays on disk with
  no record. The request handler, given the same state, removes the file.
\<close>

theorem C3_scheduled_backup_leaves_orphan_file:
  "os_Stat (files exampleWorld) ''/backups/mc_20260104_0042.tar.gz'' = Inl ENOENT \<and>
   fst (executeBackup insertFailsEnv exampleServer exampleSchedule exampleWorld) = LogFailed DBError \<and>
   os_Stat (files (snd (executeBackup insertFailsEnv exampleServer exampleSchedule exampleWorld)))
       ''/backups/mc_20260104_0042.tar.gz'' = Inr (File ''tgz'' 420) \<and>
   map FilePath (backups (database (snd (executeBackup insertFailsEnv exampleServer exampleSchedule exampleWorld))))
     = [''/backups/oldxx.tar.gz'', ''/backups/oldxxx.tar.gz''] \<and>
   fst (handlers_CreateBackup insertFailsEnv (Some exampleServer) exampleWorld)
     = Response 500 ''Failed to save backup record'' \<and>
   os_Stat (files (snd (handlers_CreateBackup insertFailsEnv (Some exampleServer) exampleWorld)))
       ''/backups/mc_20260104_0042.tar.gz'' = Inl ENOENT"
  by code_simp

text \<open>In the request handler a failed insert always ends with the archive removed.\<close>

lemma handler_removes_archive_when_insert_fails:
  assumes "insertFails (envFaults env)"
    and "RotateBackups (envFaults env) (Server_ID server) (MaxBackups server) w = (None, w1)"
    and "CreateTarGzBackup (envCodec env) (FolderPath server) (BackupPath server)
           (GenerateBackupFileName env (Server_Name server)) (files w1) = (Inr (backupPath, fileSize), fs2)"
    and "BackupPath server \<noteq> []"
  shows "handlers_CreateBackup env (Some server) w
           = (Response 500 ''Failed to save backup record'',
              w1\<lparr>files := (case os_Remove backupPath fs2 of Inl e \<Rightarrow> fs2 | Inr fs3 \<Rightarrow> fs3)\<rparr>)"
  using assms by (simp add: handlers_CreateBackup_def models_CreateBackup_def)

end
